theory Spec2Isabelle
  imports Main "HOL-Library.AList" "HOL-Library.Sublist"
begin

section \<open>Data model (types.ts)\<close>

text \<open>
  The enumerations and interfaces of \<^verbatim>\<open>types.ts\<close>. A JavaScript string is a
  \<open>string\<close>, one \<open>char\<close> per code unit: this is exact for texts whose code
  units are below 256, as are all texts the examples run on. A \<open>char\<close> has eight
  bits, so that the one literal of the program outside that range, the placeholder title
  of a source, is written as its UTF-8 bytes, and \<^verbatim>\<open>substring(0, n)\<close>, which is
  \<open>take n\<close> here, cuts a text with such code units earlier than the program does.
  No property below depends on the place of that cut. An optional property is an
  \<open>option\<close>, \<open>None\<close> being \<^verbatim>\<open>undefined\<close>.
\<close>

datatype AppStep = INPUT | RESEARCH | SCRIPT | IMAGES | METADATA | THUMBNAIL

datatype ScriptLength = SHORT | MEDIUM | LONG

record source =
  title :: string
  uri :: string

record ResearchData =
  report :: string
  sources :: "source list"

subsection \<open>Values built by \<^verbatim>\<open>JSON.parse\<close>\<close>

text \<open>
  \<^verbatim>\<open>generateScript\<close>, \<^verbatim>\<open>generateMetadata\<close> and
  \<^verbatim>\<open>generateThumbnailContent\<close> hand on whatever \<^verbatim>\<open>JSON.parse\<close> returns: the
  interfaces \<^verbatim>\<open>ScriptData\<close>, \<^verbatim>\<open>ParagraphItem\<close> and \<^verbatim>\<open>MetadataResults\<close> are
  compile-time annotations only, so at run time a script is an arbitrary JSON value.
  \<open>json\<close> is that value. A number is kept as its canonical rendering (what
  \<^verbatim>\<open>String(n)\<close> gives), since the program never computes with one. An object is
  the list of its own properties. An array carries, besides its elements, the named
  properties assigned to it: the image loop assigns \<^verbatim>\<open>isGenerating\<close> and
  \<^verbatim>\<open>imageUrl\<close> to each scene, and a scene that is an array takes them as any
  object does (\<^verbatim>\<open>JSON.parse\<close> itself builds arrays without named properties).
\<close>

datatype json =
  JNull
| JBool bool
| JNum string
| JStr string
| JArr "json list" "(string \<times> json) list"
| JObj "(string \<times> json) list"

record ThumbnailData =
  pureImageUrl :: "string option"
  mockupImageUrl :: "string option"
  copySuggestions :: "json option"

record AppState =
  currentStep :: AppStep
  topic :: string
  length' :: ScriptLength
  research :: "ResearchData option"
  script :: "json option"
  metadata :: "json option"
  thumbnail :: "ThumbnailData option"
  isProcessing :: bool

text \<open>The state \<^verbatim>\<open>useState\<close> starts from (App.tsx, lines 34 to 39).\<close>

definition initialState :: AppState where
  "initialState =
     \<lparr>currentStep = INPUT, topic = '''', length' = MEDIUM, research = None, script = None,
      metadata = None, thumbnail = None, isProcessing = False\<rparr>"

subsection \<open>Errors\<close>

text \<open>
  What the program can throw: the rejection of a request by the generative service (with
  the service's reason), the \<^verbatim>\<open>SyntaxError\<close> of \<^verbatim>\<open>JSON.parse\<close>, and the
  \<^verbatim>\<open>TypeError\<close> of an operation on a value of the wrong kind. The module is an
  ECMAScript module, hence strict code.
\<close>

datatype error = Rejected string | SyntaxError | TypeError

section \<open>JavaScript operations on values\<close>

text \<open>\<^verbatim>\<open>x || d\<close> on an optional string: the empty string is falsy as \<^verbatim>\<open>undefined\<close> is.\<close>

definition or_else :: "string option \<Rightarrow> string \<Rightarrow> string" where
  "or_else x d = (case x of None \<Rightarrow> d | Some s \<Rightarrow> if s = '''' then d else s)"

text \<open>Truthiness of a value, as \<^verbatim>\<open>!state.script\<close> tests it.\<close>

fun truthy :: "json \<Rightarrow> bool" where
  "truthy JNull = False"
| "truthy (JBool b) = b"
| "truthy (JNum n) = (n \<noteq> ''0'')"
| "truthy (JStr s) = (s \<noteq> '''')"
| "truthy (JArr xs ps) = True"
| "truthy (JObj kvs) = True"

text \<open>
  Reading a property \<^verbatim>\<open>v.k\<close>. The program reads \<^verbatim>\<open>ttsScript\<close>, \<^verbatim>\<open>paragraphs\<close>,
  \<^verbatim>\<open>imagePrompt\<close> and \<^verbatim>\<open>copySuggestions\<close>, none of them a built-in property of
  strings, numbers, booleans or arrays: on a primitive the result is \<^verbatim>\<open>undefined\<close>,
  on \<^verbatim>\<open>null\<close> the read throws.
\<close>

fun get_prop :: "json option \<Rightarrow> string \<Rightarrow> error + json option" where
  "get_prop None k = Inl TypeError"
| "get_prop (Some JNull) k = Inl TypeError"
| "get_prop (Some (JObj kvs)) k = Inr (map_of kvs k)"
| "get_prop (Some (JArr xs ps)) k = Inr (map_of ps k)"
| "get_prop v k = Inr None"

text \<open>
  Assigning a property \<^verbatim>\<open>v.k = x\<close> in strict code: an object or array takes it,
  \<^verbatim>\<open>undefined\<close>, \<^verbatim>\<open>null\<close> and the primitives throw.
\<close>

fun set_prop :: "json option \<Rightarrow> string \<Rightarrow> json \<Rightarrow> error + json" where
  "set_prop (Some (JObj kvs)) k x = Inr (JObj (AList.update k x kvs))"
| "set_prop (Some (JArr xs ps)) k x = Inr (JArr xs (AList.update k x ps))"
| "set_prop v k x = Inl TypeError"

text \<open>
  The array spread \<^verbatim>\<open>[...v]\<close>: an array gives its elements, a string its characters,
  anything else is not iterable.
\<close>

fun spread :: "json option \<Rightarrow> error + json list" where
  "spread (Some (JArr xs ps)) = Inr xs"
| "spread (Some (JStr s)) = Inr (map (\<lambda>c. JStr [c]) s)"
| "spread v = Inl TypeError"

text \<open>Reading \<^verbatim>\<open>xs[i]\<close>: \<^verbatim>\<open>undefined\<close> out of range.\<close>

definition at_index :: "json list \<Rightarrow> nat \<Rightarrow> json option" where
  "at_index xs i = (if i < length xs then Some (xs ! i) else None)"

text \<open>Decimal rendering of an array index, for the keys an array has as an object.\<close>

definition digit :: "nat \<Rightarrow> char" where
  "digit d = char_of (48 + d)"

function decimal :: "nat \<Rightarrow> string" where
  "decimal n = (if n < 10 then [digit n] else decimal (n div 10) @ [digit (n mod 10)])"
  by pat_completeness auto
termination
  by (relation "measure id") auto

text \<open>
  The object spread \<^verbatim>\<open>{...v, paragraphs: xs}\<close>: the own properties of \<open>v\<close> (of an
  array or string its indices, of the other primitives none), with \<^verbatim>\<open>paragraphs\<close>
  replaced or added.
\<close>

definition indexed :: "json list \<Rightarrow> (string \<times> json) list" where
  "indexed xs = zip (map decimal [0..<length xs]) xs"

fun own_props :: "json \<Rightarrow> (string \<times> json) list" where
  "own_props (JObj kvs) = kvs"
| "own_props (JArr xs ps) = indexed xs @ ps"
| "own_props (JStr s) = indexed (map (\<lambda>c. JStr [c]) s)"
| "own_props v = []"

definition with_paragraphs :: "json \<Rightarrow> json list \<Rightarrow> json" where
  "with_paragraphs v xs = JObj (AList.update ''paragraphs'' (JArr xs []) (own_props v))"

text \<open>
  \<^verbatim>\<open>`${v}`\<close>: the string a template literal makes of a value. An object or array
  with an own property \<^verbatim>\<open>toString\<close> (never a function, in a value that comes from
  JSON) cannot be converted and throws; an array is otherwise the join of its elements,
  \<^verbatim>\<open>null\<close> elements being empty, unless an own property hides \<^verbatim>\<open>join\<close>.
\<close>

fun join_with :: "(error + string) list \<Rightarrow> error + string" where
  "join_with [] = Inr ''''"
| "join_with [x] = x"
| "join_with (x # xs) =
     (case x of Inl e \<Rightarrow> Inl e
      | Inr s \<Rightarrow> (case join_with xs of Inl e \<Rightarrow> Inl e | Inr r \<Rightarrow> Inr (s @ '','' @ r)))"

fun to_string :: "json \<Rightarrow> error + string" where
  "to_string JNull = Inr ''null''"
| "to_string (JBool b) = Inr (if b then ''true'' else ''false'')"
| "to_string (JNum n) = Inr n"
| "to_string (JStr s) = Inr s"
| "to_string (JObj kvs) =
     (if ''toString'' \<in> fst ` set kvs then Inl TypeError else Inr ''[object Object]'')"
| "to_string (JArr xs ps) =
     (if ''toString'' \<in> fst ` set ps then Inl TypeError
      else if ''join'' \<in> fst ` set ps then Inr ''[object Array]''
      else join_with (map (\<lambda>x. if x = JNull then Inr '''' else to_string x) xs))"

definition ToString :: "json option \<Rightarrow> error + string" where
  "ToString v = (case v of None \<Rightarrow> Inr ''undefined'' | Some x \<Rightarrow> to_string x)"

section \<open>The generative service\<close>

text \<open>
  The service is an opaque collaborator reached through
  \<^verbatim>\<open>ai.models.generateContent\<close>. A request is its model selector, its prompt and
  its configuration. The fixed wording of the research, script, metadata and thumbnail
  prompts (Korean text) is not reproduced: such a prompt is given by its template and the
  text interpolated into it. An image prompt is the whole English text sent.
\<close>

datatype prompt =
  ResearchPrompt string
| ScriptPrompt string nat
| ImagePrompt string
| MetadataPrompt string
| ThumbnailPrompt string

datatype config =
  GoogleSearch
| ResponseSchema "string list"
| AspectRatio string

record request =
  model :: string
  contents :: prompt
  config :: config

text \<open>
  The part of the response the program reads: \<^verbatim>\<open>response.text\<close> and, in the first
  candidate, the grounding chunks (\<^verbatim>\<open>groundingMetadata?.groundingChunks\<close>, one
  option for the two steps of the optional chain) and the content parts
  (\<^verbatim>\<open>content?.parts\<close>).
\<close>

record chunk_web =
  web_title :: "string option"
  web_uri :: "string option"

record chunk =
  web :: "chunk_web option"

record blob =
  blob_data :: "string option"

record part =
  inlineData :: "blob option"

record candidate =
  groundingChunks :: "chunk list option"
  parts :: "part list option"

record response =
  response_text :: "string option"
  candidates :: "candidate list option"

text \<open>
  A run is observed through the React state and the sequence of its effects: the requests
  sent, the \<^verbatim>\<open>updateState\<close> calls (each with the properties it assigns), the
  \<^verbatim>\<open>console.error\<close> calls and the \<^verbatim>\<open>alert\<close>.
\<close>

datatype field_update =
  CurrentStep AppStep
| Topic string
| Length ScriptLength
| Research ResearchData
| Script json
| Metadata json
| Thumbnail ThumbnailData
| IsProcessing bool

datatype event = Called request | SetState "field_update list" | ConsoleError | Alert

record world =
  state :: AppState
  events :: "event list"

fun calls :: "event list \<Rightarrow> request list" where
  "calls [] = []"
| "calls (Called r # es) = r # calls es"
| "calls (e # es) = calls es"

text \<open>
  The service answers a request with a response or rejects it. Its answer may depend on
  the request and on how many requests were sent before (two requests with the same
  prompt need not fare alike). \<^verbatim>\<open>JSON.parse\<close> belongs to the platform and is a
  parameter: \<open>None\<close> when it throws \<^verbatim>\<open>SyntaxError\<close>.
\<close>

type_synonym service = "nat \<Rightarrow> request \<Rightarrow> error + response"

type_synonym parser = "string \<Rightarrow> json option"

definition generateContent :: "service \<Rightarrow> request \<Rightarrow> world \<Rightarrow> (error + response) \<times> world" where
  "generateContent service req w =
     (service (length (calls (events w))) req, w\<lparr>events := events w @ [Called req]\<rparr>)"

section \<open>Generation client (geminiService.ts)\<close>

text \<open>
  Every operation awaits its request: it takes the world, sends the request and returns
  its result (\<open>Inl\<close> when the promise rejects) with the world after it. Creating the
  client (\<^verbatim>\<open>getAI\<close>) has no effect the program observes.
\<close>

subsection \<open>\<^verbatim>\<open>performResearch\<close> (lines 7 to 26)\<close>

text \<open>The placeholder title of line 18, two Hangul syllables, in UTF-8.\<close>

definition source_placeholder :: string where
  "source_placeholder = [CHR 0xEC, CHR 0xB6, CHR 0x9C, CHR 0xEC, CHR 0xB2, CHR 0x98]"

definition research_request :: "string \<Rightarrow> request" where
  "research_request topic_text =
     \<lparr>model = ''gemini-3-pro-preview'', contents = ResearchPrompt topic_text,
      config = GoogleSearch\<rparr>"

definition chunk_source :: "chunk \<Rightarrow> source" where
  "chunk_source c =
     \<lparr>title = or_else (case web c of None \<Rightarrow> None | Some wb \<Rightarrow> web_title wb) source_placeholder,
      uri = or_else (case web c of None \<Rightarrow> None | Some wb \<Rightarrow> web_uri wb) ''#''\<rparr>"

definition first_candidate :: "response \<Rightarrow> candidate option" where
  "first_candidate resp =
     (case candidates resp of None \<Rightarrow> None | Some [] \<Rightarrow> None | Some (c # cs) \<Rightarrow> Some c)"

definition grounding_sources :: "response \<Rightarrow> source list" where
  "grounding_sources resp =
     (case first_candidate resp of
        None \<Rightarrow> []
      | Some c \<Rightarrow> (case groundingChunks c of None \<Rightarrow> [] | Some chunks \<Rightarrow> map chunk_source chunks))"

definition performResearch :: "service \<Rightarrow> string \<Rightarrow> world \<Rightarrow> (error + ResearchData) \<times> world" where
  "performResearch service topic_text w =
     (case generateContent service (research_request topic_text) w of
        (Inl e, w') \<Rightarrow> (Inl e, w')
      | (Inr resp, w') \<Rightarrow>
          (Inr \<lparr>report = or_else (response_text resp) '''', sources = grounding_sources resp\<rparr>, w'))"

subsection \<open>\<^verbatim>\<open>generateScript\<close> (lines 28 to 79)\<close>

definition targetChars :: "ScriptLength \<Rightarrow> nat" where
  "targetChars len = (if len = SHORT then 4000 else if len = MEDIUM then 8000 else 12000)"

definition script_request :: "string \<Rightarrow> ScriptLength \<Rightarrow> request" where
  "script_request research_text len =
     \<lparr>model = ''gemini-3-pro-preview'', contents = ScriptPrompt research_text (targetChars len),
      config = ResponseSchema [''rawScript'', ''ttsScript'', ''paragraphs'']\<rparr>"

text \<open>\<^verbatim>\<open>JSON.parse(response.text || '{}')\<close>, as lines 77, 131 and 164 have it.\<close>

definition parse_text :: "parser \<Rightarrow> response \<Rightarrow> error + json" where
  "parse_text parse resp =
     (case parse (or_else (response_text resp) ''{}'') of
        None \<Rightarrow> Inl SyntaxError
      | Some v \<Rightarrow> Inr v)"

definition generateScript ::
  "service \<Rightarrow> parser \<Rightarrow> string \<Rightarrow> ScriptLength \<Rightarrow> world \<Rightarrow> (error + json) \<times> world" where
  "generateScript service parse research_text len w =
     (case generateContent service (script_request research_text len) w of
        (Inl e, w') \<Rightarrow> (Inl e, w')
      | (Inr resp, w') \<Rightarrow> (parse_text parse resp, w'))"

subsection \<open>\<^verbatim>\<open>generateImage\<close> (lines 81 to 101)\<close>

definition image_request :: "string \<Rightarrow> request" where
  "image_request prompt_text =
     \<lparr>model = ''gemini-2.5-flash-image'',
      contents = ImagePrompt
        (''Photorealistic, surreal high-quality image, set in Korea with Korean people, high resolution, cinematic lighting, no text: ''
         @ prompt_text),
      config = AspectRatio ''16:9''\<rparr>"

text \<open>The loop of lines 94 to 99: the first part with inline data, as a data URL.\<close>

fun first_inline :: "part list \<Rightarrow> string" where
  "first_inline [] = ''''"
| "first_inline (p # ps) =
     (case inlineData p of
        Some b \<Rightarrow> ''data:image/png;base64,'' @ (case blob_data b of None \<Rightarrow> ''undefined'' | Some d \<Rightarrow> d)
      | None \<Rightarrow> first_inline ps)"

definition image_url :: "response \<Rightarrow> string" where
  "image_url resp =
     first_inline
       (case first_candidate resp of
          None \<Rightarrow> []
        | Some c \<Rightarrow> (case parts c of None \<Rightarrow> [] | Some ps \<Rightarrow> ps))"

text \<open>
  The argument is declared a string, and is whatever value the caller read from a scene:
  the template literal of line 83 converts it, and a value that cannot be converted
  rejects the promise before any request is sent.
\<close>

definition generateImage :: "service \<Rightarrow> json option \<Rightarrow> world \<Rightarrow> (error + string) \<times> world" where
  "generateImage service prompt_value w =
     (case ToString prompt_value of
        Inl e \<Rightarrow> (Inl e, w)
      | Inr prompt_text \<Rightarrow>
          (case generateContent service (image_request prompt_text) w of
             (Inl e, w') \<Rightarrow> (Inl e, w')
           | (Inr resp, w') \<Rightarrow> (Inr (image_url resp), w')))"

subsection \<open>\<^verbatim>\<open>generateMetadata\<close> (lines 103 to 132)\<close>

definition metadata_request :: "string \<Rightarrow> request" where
  "metadata_request script_text =
     \<lparr>model = ''gemini-3-flash-preview'', contents = MetadataPrompt (take 5000 script_text),
      config = ResponseSchema
        [''youtubeDescription'', ''summary4Lines'', ''hashtags'', ''seoKeywords'', ''pinnedComment'']\<rparr>"

text \<open>
  \<^verbatim>\<open>script.substring\<close> exists on strings only: any other argument throws before the
  request is built.
\<close>

definition generateMetadata ::
  "service \<Rightarrow> parser \<Rightarrow> json option \<Rightarrow> world \<Rightarrow> (error + json) \<times> world" where
  "generateMetadata service parse script_value w =
     (case script_value of
        Some (JStr script_text) \<Rightarrow>
          (case generateContent service (metadata_request script_text) w of
             (Inl e, w') \<Rightarrow> (Inl e, w')
           | (Inr resp, w') \<Rightarrow> (parse_text parse resp, w'))
      | _ \<Rightarrow> (Inl TypeError, w))"

subsection \<open>\<^verbatim>\<open>generateThumbnailContent\<close> (lines 134 to 173)\<close>

definition thumbnail_request :: "string \<Rightarrow> request" where
  "thumbnail_request script_text =
     \<lparr>model = ''gemini-3-flash-preview'', contents = ThumbnailPrompt (take 2000 script_text),
      config = ResponseSchema [''copySuggestions'', ''imagePrompt'']\<rparr>"

definition thumbnail_image_prompt :: "string \<Rightarrow> string" where
  "thumbnail_image_prompt described =
     ''Hyper-realistic cinematic YouTube thumbnail background, Korean context, emotionally grabbing, no text: ''
     @ described"

text \<open>
  Lines 164 to 172, once the text response is there: parse it, read
  \<^verbatim>\<open>textData.imagePrompt\<close> into the template of line 167, await the image, then
  build the result from \<^verbatim>\<open>pureImage\<close> and \<^verbatim>\<open>textData.copySuggestions\<close>. The
  object literal has these two properties and no other.
\<close>

definition thumbnail_from_text ::
  "service \<Rightarrow> json \<Rightarrow> world \<Rightarrow> (error + ThumbnailData) \<times> world" where
  "thumbnail_from_text service textData w =
     (case get_prop (Some textData) ''imagePrompt'' of
        Inl e \<Rightarrow> (Inl e, w)
      | Inr described \<Rightarrow>
          (case ToString described of
             Inl e \<Rightarrow> (Inl e, w)
           | Inr described_text \<Rightarrow>
               (case generateImage service (Some (JStr (thumbnail_image_prompt described_text))) w of
                  (Inl e, w') \<Rightarrow> (Inl e, w')
                | (Inr pureImage, w') \<Rightarrow>
                    (case get_prop (Some textData) ''copySuggestions'' of
                       Inl e \<Rightarrow> (Inl e, w')
                     | Inr suggestions \<Rightarrow>
                         (Inr \<lparr>pureImageUrl = Some pureImage, mockupImageUrl = None,
                               copySuggestions = suggestions\<rparr>, w')))))"

definition generateThumbnailContent ::
  "service \<Rightarrow> parser \<Rightarrow> json option \<Rightarrow> world \<Rightarrow> (error + ThumbnailData) \<times> world" where
  "generateThumbnailContent service parse script_value w =
     (case script_value of
        Some (JStr script_text) \<Rightarrow>
          (case generateContent service (thumbnail_request script_text) w of
             (Inl e, w') \<Rightarrow> (Inl e, w')
           | (Inr textResponse, w') \<Rightarrow>
               (case parse_text parse textResponse of
                  Inl e \<Rightarrow> (Inl e, w')
                | Inr textData \<Rightarrow> thumbnail_from_text service textData w'))
      | _ \<Rightarrow> (Inl TypeError, w))"

section \<open>Pipeline orchestrator (App.tsx)\<close>

subsection \<open>\<^verbatim>\<open>updateState\<close> (lines 41 to 43)\<close>

text \<open>
  \<^verbatim>\<open>setState(prev => ({ ...prev, ...updates }))\<close>: the properties present in the
  update replace those of the state, the others stay.
\<close>

fun assign :: "field_update \<Rightarrow> AppState \<Rightarrow> AppState" where
  "assign (CurrentStep x) s = s\<lparr>currentStep := x\<rparr>"
| "assign (Topic x) s = s\<lparr>topic := x\<rparr>"
| "assign (Length x) s = s\<lparr>length' := x\<rparr>"
| "assign (Research x) s = s\<lparr>research := Some x\<rparr>"
| "assign (Script x) s = s\<lparr>script := Some x\<rparr>"
| "assign (Metadata x) s = s\<lparr>metadata := Some x\<rparr>"
| "assign (Thumbnail x) s = s\<lparr>thumbnail := Some x\<rparr>"
| "assign (IsProcessing x) s = s\<lparr>isProcessing := x\<rparr>"

definition updateState :: "field_update list \<Rightarrow> world \<Rightarrow> world" where
  "updateState updates w =
     w\<lparr>state := fold assign updates (state w), events := events w @ [SetState updates]\<rparr>"

definition console_error :: "world \<Rightarrow> world" where
  "console_error w = w\<lparr>events := events w @ [ConsoleError]\<rparr>"

subsection \<open>The image of one scene (lines 76 to 81, and 121 to 126)\<close>

text \<open>
  The \<^verbatim>\<open>try\<close> block shared by the image loop and by \<^verbatim>\<open>retryImage\<close>: whatever is
  thrown inside it is logged and goes no further, and only a returned URL is assigned.
\<close>

definition image_attempt :: "service \<Rightarrow> nat \<Rightarrow> json list \<Rightarrow> world \<Rightarrow> json list \<times> world" where
  "image_attempt service i paragraphs w =
     (case get_prop (at_index paragraphs i) ''imagePrompt'' of
        Inl e \<Rightarrow> (paragraphs, console_error w)
      | Inr prompt_value \<Rightarrow>
          (case generateImage service prompt_value w of
             (Inl e, w') \<Rightarrow> (paragraphs, console_error w')
           | (Inr url, w') \<Rightarrow>
               (case set_prop (at_index paragraphs i) ''imageUrl'' (JStr url) of
                  Inl e \<Rightarrow> (paragraphs, console_error w')
                | Inr p \<Rightarrow> (paragraphs[i := p], w'))))"

subsection \<open>The image loop (lines 72 to 85)\<close>

text \<open>
  One pass of the loop body for scene \<open>i\<close>: mark it generating and publish, attempt the
  image, mark it done and publish. The scenes are objects shared by the array
  \<^verbatim>\<open>updatedParagraphs\<close> and by every script object published, so that what a reader
  of the state sees after an \<^verbatim>\<open>updateState\<close> is the array as it is then. An
  assignment to a scene that is no object throws outside the \<^verbatim>\<open>try\<close> block.
\<close>

definition image_step ::
  "service \<Rightarrow> json \<Rightarrow> nat \<Rightarrow> json list \<Rightarrow> world \<Rightarrow> (error + json list) \<times> world" where
  "image_step service scriptData i updatedParagraphs w =
     (case set_prop (at_index updatedParagraphs i) ''isGenerating'' (JBool True) of
        Inl e \<Rightarrow> (Inl e, w)
      | Inr p \<Rightarrow>
          (let ps1 = updatedParagraphs[i := p];
               w1 = updateState [Script (with_paragraphs scriptData ps1)] w;
               (ps2, w2) = image_attempt service i ps1 w1
           in case set_prop (at_index ps2 i) ''isGenerating'' (JBool False) of
                Inl e \<Rightarrow> (Inl e, w2)
              | Inr q \<Rightarrow>
                  (let ps3 = ps2[i := q]
                   in (Inr ps3, updateState [Script (with_paragraphs scriptData ps3)] w2))))"

text \<open>The loop from index \<open>i\<close> on; its value is the array when the loop ends.\<close>

function images_loop ::
  "service \<Rightarrow> json \<Rightarrow> nat \<Rightarrow> json list \<Rightarrow> world \<Rightarrow> (error + json list) \<times> world" where
  "images_loop service scriptData i updatedParagraphs w =
     (if i < length updatedParagraphs then
        (case image_step service scriptData i updatedParagraphs w of
           (Inl e, w') \<Rightarrow> (Inl e, w')
         | (Inr ps', w') \<Rightarrow> images_loop service scriptData (Suc i) ps' w')
      else (Inr updatedParagraphs, w))"
  by pat_completeness auto
termination
proof (relation "measure (\<lambda>(service, scriptData, i, ps, w). length ps - i)")
  show "wf (measure (\<lambda>(service, scriptData, i, ps, w). length ps - i))"
    by simp
next
  fix service :: service and scriptData i updatedParagraphs w x1 w' ps'
  assume "i < length updatedParagraphs"
    and "(x1, w') = image_step service scriptData i updatedParagraphs w"
    and "x1 = Inr ps'"
  then have "length ps' = length updatedParagraphs"
    by (auto simp: image_step_def image_attempt_def Let_def split: sum.splits prod.splits)
  with \<open>i < length updatedParagraphs\<close>
  show "((service, scriptData, Suc i, ps', w'), (service, scriptData, i, updatedParagraphs, w))
        \<in> measure (\<lambda>(service, scriptData, i, ps, w). length ps - i)"
    by simp
qed

subsection \<open>\<^verbatim>\<open>startWorkflow\<close> (lines 45 to 93)\<close>

text \<open>
  Lines 50 to 67, the four single calls. The value is the script the image loop then
  works on. \<^verbatim>\<open>scriptData.ttsScript\<close> is read at line 61 and again at line 66, with
  the same result, the script object being untouched in between.
\<close>

definition top_stages ::
  "service \<Rightarrow> parser \<Rightarrow> string \<Rightarrow> ScriptLength \<Rightarrow> world \<Rightarrow> (error + json) \<times> world" where
  "top_stages service parse topic_text len w =
     (case performResearch service topic_text w of
        (Inl e, w1) \<Rightarrow> (Inl e, w1)
      | (Inr research_data, w1) \<Rightarrow>
          (let w2 = updateState [CurrentStep SCRIPT] (updateState [Research research_data] w1)
           in case generateScript service parse (report research_data) len w2 of
                (Inl e, w3) \<Rightarrow> (Inl e, w3)
              | (Inr scriptData, w3) \<Rightarrow>
                  (let w4 = updateState [CurrentStep METADATA] (updateState [Script scriptData] w3)
                   in case get_prop (Some scriptData) ''ttsScript'' of
                        Inl e \<Rightarrow> (Inl e, w4)
                      | Inr ttsScript \<Rightarrow>
                          (case generateMetadata service parse ttsScript w4 of
                             (Inl e, w5) \<Rightarrow> (Inl e, w5)
                           | (Inr metadata_value, w5) \<Rightarrow>
                               (let w6 = updateState [CurrentStep THUMBNAIL]
                                           (updateState [Metadata metadata_value] w5)
                                in case generateThumbnailContent service parse ttsScript w6 of
                                     (Inl e, w7) \<Rightarrow> (Inl e, w7)
                                   | (Inr thumbnail_value, w7) \<Rightarrow>
                                       (Inr scriptData,
                                        updateState [Thumbnail thumbnail_value] w7))))))"

text \<open>Lines 70 to 85: the stage marker, the copy of the scene array, the loop.\<close>

definition images_stage :: "service \<Rightarrow> json \<Rightarrow> world \<Rightarrow> (error + json list) \<times> world" where
  "images_stage service scriptData w =
     (let w1 = updateState [CurrentStep IMAGES] w
      in case get_prop (Some scriptData) ''paragraphs'' of
           Inl e \<Rightarrow> (Inl e, w1)
         | Inr paragraphs_value \<Rightarrow>
             (case spread paragraphs_value of
                Inl e \<Rightarrow> (Inl e, w1)
              | Inr updatedParagraphs \<Rightarrow> images_loop service scriptData 0 updatedParagraphs w1))"

definition try_body ::
  "service \<Rightarrow> parser \<Rightarrow> string \<Rightarrow> ScriptLength \<Rightarrow> world \<Rightarrow> (error + json list) \<times> world" where
  "try_body service parse topic_text len w =
     (case top_stages service parse topic_text len w of
        (Inl e, w') \<Rightarrow> (Inl e, w')
      | (Inr scriptData, w') \<Rightarrow> images_stage service scriptData w')"

text \<open>
  The whole function, on the state it is called in: the guard of line 46, the first
  update, the \<^verbatim>\<open>try\<close> block, the \<^verbatim>\<open>catch\<close> (log and alert), the \<^verbatim>\<open>finally\<close>.
  \<^verbatim>\<open>state.topic\<close> and \<^verbatim>\<open>state.length\<close> are those of the state at the call. No
  other handler runs in between (the run is followed alone).
\<close>

definition startWorkflow :: "service \<Rightarrow> parser \<Rightarrow> world \<Rightarrow> world" where
  "startWorkflow service parse w =
     (if topic (state w) = '''' then w
      else
        (let w1 = updateState [IsProcessing True, CurrentStep RESEARCH] w
         in case try_body service parse (topic (state w)) (length' (state w)) w1 of
              (Inl e, w2) \<Rightarrow>
                updateState [IsProcessing False] (w2\<lparr>events := events w2 @ [ConsoleError, Alert]\<rparr>)
            | (Inr done, w2) \<Rightarrow> updateState [IsProcessing False] w2))"

text \<open>A run from state \<open>s\<close>, nothing having happened before.\<close>

definition run :: "service \<Rightarrow> parser \<Rightarrow> AppState \<Rightarrow> world" where
  "run service parse s = startWorkflow service parse \<lparr>state = s, events = []\<rparr>"

subsection \<open>\<^verbatim>\<open>retryImage\<close> (lines 115 to 130)\<close>

text \<open>
  The value says how the promise settles. Nothing is caught outside the \<^verbatim>\<open>try\<close>
  block: an index with no scene, or a script without a scene array, rejects it.
\<close>

definition retryImage :: "service \<Rightarrow> nat \<Rightarrow> world \<Rightarrow> (error + unit) \<times> world" where
  "retryImage service index w =
     (case script (state w) of
        None \<Rightarrow> (Inr (), w)
      | Some state_script \<Rightarrow>
          (if \<not> truthy state_script then (Inr (), w)
           else
             (case get_prop (Some state_script) ''paragraphs'' of
                Inl e \<Rightarrow> (Inl e, w)
              | Inr paragraphs_value \<Rightarrow>
                  (case spread paragraphs_value of
                     Inl e \<Rightarrow> (Inl e, w)
                   | Inr newParagraphs \<Rightarrow>
                       (case set_prop (at_index newParagraphs index) ''isGenerating'' (JBool True) of
                          Inl e \<Rightarrow> (Inl e, w)
                        | Inr p \<Rightarrow>
                            (let ps1 = newParagraphs[index := p];
                                 w1 = updateState [Script (with_paragraphs state_script ps1)] w;
                                 (ps2, w2) = image_attempt service index ps1 w1
                             in case set_prop (at_index ps2 index) ''isGenerating'' (JBool False) of
                                  Inl e \<Rightarrow> (Inl e, w2)
                                | Inr q \<Rightarrow>
                                    (Inr (),
                                     updateState
                                       [Script (with_paragraphs state_script (ps2[index := q]))]
                                       w2)))))))"

section \<open>What a run shows\<close>

text \<open>
  The scenes of a script value and of a state, and the property of a scene as the
  presentation reads it (\<^verbatim>\<open>state.script?.paragraphs.map((p, idx) => ...)\<close>, App.tsx
  lines 302 to 325).
\<close>

definition paragraphs_of :: "json \<Rightarrow> json list" where
  "paragraphs_of v =
     (case get_prop (Some v) ''paragraphs'' of Inr (Some (JArr xs ps)) \<Rightarrow> xs | _ \<Rightarrow> [])"

definition scenes_of :: "AppState \<Rightarrow> json list" where
  "scenes_of s = (case script s of None \<Rightarrow> [] | Some v \<Rightarrow> paragraphs_of v)"

definition scene_field :: "AppState \<Rightarrow> nat \<Rightarrow> string \<Rightarrow> json option" where
  "scene_field s i k =
     (case get_prop (at_index (scenes_of s) i) k of Inr v \<Rightarrow> v | Inl e \<Rightarrow> None)"

text \<open>
  The parts that the loop of \<^verbatim>\<open>generateImage\<close> goes through
  (\<^verbatim>\<open>response.candidates?.[0]?.content?.parts || []\<close>, line 94): when none of them
  has inline data, the URL returned is the empty string.
\<close>

definition content_parts :: "response \<Rightarrow> part list" where
  "content_parts resp =
     (case first_candidate resp of
        None \<Rightarrow> []
      | Some c \<Rightarrow> (case parts c of None \<Rightarrow> [] | Some ps \<Rightarrow> ps))"

text \<open>The request the image loop sends for a scene: its prompt in the image template.\<close>

definition scene_request :: "json \<Rightarrow> request" where
  "scene_request p =
     image_request
       (case get_prop (Some p) ''imagePrompt'' of
          Inr v \<Rightarrow> (case ToString v of Inr t \<Rightarrow> t | Inl e \<Rightarrow> '''')
        | Inl e \<Rightarrow> '''')"

text \<open>The operation a request belongs to, read off its prompt.\<close>

datatype operation = ResearchCall | ScriptCall | ImageCall | MetadataCall | ThumbnailCall

definition operation_of :: "request \<Rightarrow> operation" where
  "operation_of req =
     (case contents req of
        ResearchPrompt t \<Rightarrow> ResearchCall
      | ScriptPrompt t n \<Rightarrow> ScriptCall
      | ImagePrompt t \<Rightarrow> ImageCall
      | MetadataPrompt t \<Rightarrow> MetadataCall
      | ThumbnailPrompt t \<Rightarrow> ThumbnailCall)"

text \<open>The values of \<^verbatim>\<open>currentStep\<close> that the updates of a run assign, in order.\<close>

fun assigned_steps :: "field_update list \<Rightarrow> AppStep list" where
  "assigned_steps [] = []"
| "assigned_steps (CurrentStep x # us) = x # assigned_steps us"
| "assigned_steps (u # us) = assigned_steps us"

fun stage_updates :: "event list \<Rightarrow> AppStep list" where
  "stage_updates [] = []"
| "stage_updates (SetState us # es) = assigned_steps us @ stage_updates es"
| "stage_updates (e # es) = stage_updates es"

text \<open>
  The order of the stages: that of the enumeration \<^verbatim>\<open>AppStep\<close> (types.ts, lines 2
  to 9), which is also that of the navigation bar (App.tsx, lines 135 to 140).
\<close>

fun step_rank :: "AppStep \<Rightarrow> nat" where
  "step_rank INPUT = 0"
| "step_rank RESEARCH = 1"
| "step_rank SCRIPT = 2"
| "step_rank IMAGES = 3"
| "step_rank METADATA = 4"
| "step_rank THUMBNAIL = 5"

definition forward_only :: "AppStep list \<Rightarrow> bool" where
  "forward_only steps = successively (\<lambda>a b. step_rank a < step_rank b) steps"

text \<open>An update that assigns a thumbnail with a \<^verbatim>\<open>mockupImageUrl\<close>.\<close>

fun assigns_mockup :: "field_update \<Rightarrow> bool" where
  "assigns_mockup (Thumbnail t) = (mockupImageUrl t \<noteq> None)"
| "assigns_mockup u = False"

fun writes_mockup :: "event \<Rightarrow> bool" where
  "writes_mockup (SetState us) = list_ex assigns_mockup us"
| "writes_mockup e = False"

subsection \<open>The declared shape of a script\<close>

text \<open>
  \<^verbatim>\<open>ScriptData\<close> and \<^verbatim>\<open>ParagraphItem\<close> of types.ts (lines 22 to 34), as a test on
  a value: the required properties with their types, the optional ones with theirs when
  present. It is also what the response schema of lines 54 to 73 asks of the service.
\<close>

definition is_string :: "json option \<Rightarrow> bool" where
  "is_string v = (case v of Some (JStr s) \<Rightarrow> True | _ \<Rightarrow> False)"

definition is_number :: "json option \<Rightarrow> bool" where
  "is_number v = (case v of Some (JNum n) \<Rightarrow> True | _ \<Rightarrow> False)"

definition is_optional_string :: "json option \<Rightarrow> bool" where
  "is_optional_string v = (case v of None \<Rightarrow> True | Some (JStr s) \<Rightarrow> True | _ \<Rightarrow> False)"

definition is_optional_boolean :: "json option \<Rightarrow> bool" where
  "is_optional_boolean v = (case v of None \<Rightarrow> True | Some (JBool b) \<Rightarrow> True | _ \<Rightarrow> False)"

fun is_ParagraphItem :: "json \<Rightarrow> bool" where
  "is_ParagraphItem (JObj kvs) =
     (is_number (map_of kvs ''id'') \<and> is_string (map_of kvs ''content'')
      \<and> is_string (map_of kvs ''imagePrompt'') \<and> is_optional_string (map_of kvs ''imageUrl'')
      \<and> is_optional_boolean (map_of kvs ''isGenerating''))"
| "is_ParagraphItem v = False"

fun is_ScriptData :: "json \<Rightarrow> bool" where
  "is_ScriptData (JObj kvs) =
     (is_string (map_of kvs ''rawScript'') \<and> is_string (map_of kvs ''ttsScript'')
      \<and> (case map_of kvs ''paragraphs'' of
            Some (JArr xs ps) \<Rightarrow> list_all is_ParagraphItem xs
          | _ \<Rightarrow> False))"
| "is_ScriptData v = False"

text \<open>
  A scene after its pass through the loop body, given how its image request fared:
  \<^verbatim>\<open>isGenerating\<close> set and cleared, \<^verbatim>\<open>imageUrl\<close> assigned when a response came.
\<close>

definition scene_done :: "json \<Rightarrow> error + response \<Rightarrow> json" where
  "scene_done p outcome =
     (case p of
        JObj kvs \<Rightarrow>
          JObj (AList.update ''isGenerating'' (JBool False)
                 (case outcome of
                    Inl e \<Rightarrow> AList.update ''isGenerating'' (JBool True) kvs
                  | Inr resp \<Rightarrow>
                      AList.update ''imageUrl'' (JStr (image_url resp))
                        (AList.update ''isGenerating'' (JBool True) kvs)))
      | _ \<Rightarrow> p)"

section \<open>A service and responses to run the program on\<close>

text \<open>
  Three scenes, the texts a service could answer with, and the values
  \<^verbatim>\<open>JSON.parse\<close> makes of these texts. The service rejects the requests whose
  number is in \<open>failing\<close> and answers the others: the research report with one
  grounding chunk without title, the script, the metadata, the thumbnail copy, and an
  image for every later request.
\<close>

definition demo_scene :: "string \<Rightarrow> string \<Rightarrow> json" where
  "demo_scene n p =
     JObj [(''id'', JNum n), (''content'', JStr ''...''), (''imagePrompt'', JStr p)]"

definition demo_script :: json where
  "demo_script =
     JObj [(''rawScript'', JStr ''raw''), (''ttsScript'', JStr ''tts''),
           (''paragraphs'',
            JArr [demo_scene ''1'' ''p0'', demo_scene ''2'' ''p1'', demo_scene ''3'' ''p2''] [])]"

definition demo_script_text :: string where
  \<open>demo_script_text =
     ''{"rawScript":"raw","ttsScript":"tts","paragraphs":[{"id":1,"content":"...","imagePrompt":"p0"},{"id":2,"content":"...","imagePrompt":"p1"},{"id":3,"content":"...","imagePrompt":"p2"}]}''\<close>

definition demo_metadata :: json where
  "demo_metadata = JObj [(''pinnedComment'', JStr ''hello'')]"

definition demo_metadata_text :: string where
  \<open>demo_metadata_text = ''{"pinnedComment":"hello"}''\<close>

definition demo_suggestions :: json where
  "demo_suggestions = JObj [(''type1'', JArr [JStr ''a''] []), (''type2'', JArr [JStr ''b''] [])]"

definition demo_thumbnail :: json where
  "demo_thumbnail = JObj [(''copySuggestions'', demo_suggestions), (''imagePrompt'', JStr ''bg'')]"

definition demo_thumbnail_text :: string where
  \<open>demo_thumbnail_text = ''{"copySuggestions":{"type1":["a"],"type2":["b"]},"imagePrompt":"bg"}''\<close>

definition demo_parse :: parser where
  "demo_parse =
     map_of
       [(''{}'', JObj []),
        (''[]'', JArr [] []),
        (demo_script_text, demo_script),
        (demo_metadata_text, demo_metadata),
        (demo_thumbnail_text, demo_thumbnail)]"

definition text_response :: "string \<Rightarrow> response" where
  "text_response t = \<lparr>response_text = Some t, candidates = None\<rparr>"

definition image_response :: "string \<Rightarrow> response" where
  "image_response d =
     \<lparr>response_text = None,
      candidates =
        Some [\<lparr>groundingChunks = None,
               parts = Some [\<lparr>inlineData = None\<rparr>, \<lparr>inlineData = Some \<lparr>blob_data = Some d\<rparr>\<rparr>]\<rparr>]\<rparr>"

definition research_response :: response where
  "research_response =
     \<lparr>response_text = Some ''report'',
      candidates =
        Some [\<lparr>groundingChunks =
                 Some [\<lparr>web = Some \<lparr>web_title = None, web_uri = Some ''https://example.org''\<rparr>\<rparr>],
               parts = None\<rparr>]\<rparr>"

definition no_text_response :: response where
  "no_text_response =
     \<lparr>response_text = None,
      candidates = Some [\<lparr>groundingChunks = Some [\<lparr>web = None\<rparr>], parts = None\<rparr>]\<rparr>"

definition demo_service :: "nat set \<Rightarrow> service" where
  "demo_service failing n req =
     (if n \<in> failing then Inl (Rejected ''unavailable'')
      else if n = 0 then Inr research_response
      else if n = 1 then Inr (text_response demo_script_text)
      else if n = 2 then Inr (text_response demo_metadata_text)
      else if n = 3 then Inr (text_response demo_thumbnail_text)
      else Inr (image_response ''QUJD''))"

definition demo_state :: AppState where
  "demo_state = initialState\<lparr>topic := ''tea''\<rparr>"

definition demo_world :: world where
  "demo_world = \<lparr>state = demo_state, events = []\<rparr>"

text \<open>
  A state in which a script with one scene is shown, its image already there; and the
  world of a run about to ask for the thumbnail copy, three requests having been sent.
\<close>

definition shown_script :: json where
  "shown_script =
     JObj [(''rawScript'', JStr ''raw''), (''ttsScript'', JStr ''tts''),
           (''paragraphs'',
            JArr [JObj [(''id'', JNum ''1''), (''content'', JStr ''...''),
                        (''imagePrompt'', JStr ''p0''), (''isGenerating'', JBool False),
                        (''imageUrl'', JStr ''data:image/png;base64,T0xE'')]] [])]"

definition shown_world :: world where
  "shown_world = \<lparr>state = demo_state\<lparr>script := Some shown_script\<rparr>, events = []\<rparr>"

definition before_thumbnail :: world where
  "before_thumbnail =
     \<lparr>state = demo_state,
      events = [Called (research_request ''tea''), Called (script_request ''report'' MEDIUM),
                Called (metadata_request ''tts'')]\<rparr>"

text \<open>A text cut short, which \<^verbatim>\<open>JSON.parse\<close> refuses.\<close>

definition broken_text :: string where
  \<open>broken_text = ''{"rawScript":''\<close>

text \<open>
  A script without scene array, and a \<^verbatim>\<open>JSON.parse\<close> that makes it of every text:
  the four single calls go through on it, and line 71 then throws.
\<close>

definition bare_script :: json where
  "bare_script = JObj [(''ttsScript'', JStr ''tts'')]"

definition bare_parse :: parser where
  "bare_parse = (\<lambda>t. Some bare_script)"

section \<open>The effects of the image loop\<close>

text \<open>
  What the loop body and \<^verbatim>\<open>retryImage\<close> can do: send an image request, publish
  a script, log an error. They never alert and never assign another property of the state.
\<close>

fun loop_event :: "event \<Rightarrow> bool" where
  "loop_event (Called r) = (operation_of r = ImageCall)"
| "loop_event (SetState us) = (case us of [Script v] \<Rightarrow> True | _ \<Rightarrow> False)"
| "loop_event ConsoleError = True"
| "loop_event Alert = False"

text \<open>
  A scene the loop body handles without a type error: an object whose
  \<^verbatim>\<open>imagePrompt\<close> the image template can convert.
\<close>

fun good_scene :: "json \<Rightarrow> bool" where
  "good_scene (JObj kvs) =
     (case ToString (map_of kvs ''imagePrompt'') of Inr t \<Rightarrow> True | Inl e \<Rightarrow> False)"
| "good_scene v = False"

section \<open>Basic facts\<close>

text \<open>The recursive equations of the loops are unfolded by hand, one pass at a time.\<close>

declare images_loop.simps [simp del]

declare decimal.simps [simp del]

lemma calls_append: "calls (xs @ ys) = calls xs @ calls ys"
  by (induction xs rule: calls.induct) auto

lemma stage_updates_append: "stage_updates (xs @ ys) = stage_updates xs @ stage_updates ys"
  by (induction xs rule: stage_updates.induct) auto

lemma state_updateState: "state (updateState us w) = fold assign us (state w)"
  by (simp add: updateState_def)

lemma events_updateState: "events (updateState us w) = events w @ [SetState us]"
  by (simp add: updateState_def)

section \<open>The client functions, request by request\<close>

text \<open>
  Each operation as a function of the service's answer to its request, the request being
  numbered by the requests already sent.
\<close>

lemma performResearch_eq:
  "performResearch service t w =
     ((case service (length (calls (events w))) (research_request t) of
         Inl e \<Rightarrow> Inl e
       | Inr resp \<Rightarrow>
           Inr \<lparr>report = or_else (response_text resp) '''', sources = grounding_sources resp\<rparr>),
      w\<lparr>events := events w @ [Called (research_request t)]\<rparr>)"
  by (simp add: performResearch_def generateContent_def split: sum.splits)

lemma generateScript_eq:
  "generateScript service parse r len w =
     ((case service (length (calls (events w))) (script_request r len) of
         Inl e \<Rightarrow> Inl e
       | Inr resp \<Rightarrow> parse_text parse resp),
      w\<lparr>events := events w @ [Called (script_request r len)]\<rparr>)"
  by (simp add: generateScript_def generateContent_def split: sum.splits)

lemma generateImage_eq:
  "generateImage service v w =
     (case ToString v of
        Inl e \<Rightarrow> (Inl e, w)
      | Inr p \<Rightarrow>
          ((case service (length (calls (events w))) (image_request p) of
              Inl e \<Rightarrow> Inl e
            | Inr resp \<Rightarrow> Inr (image_url resp)),
           w\<lparr>events := events w @ [Called (image_request p)]\<rparr>))"
  by (simp add: generateImage_def generateContent_def split: sum.splits)

lemma generateMetadata_eq:
  "generateMetadata service parse (Some (JStr s)) w =
     ((case service (length (calls (events w))) (metadata_request s) of
         Inl e \<Rightarrow> Inl e
       | Inr resp \<Rightarrow> parse_text parse resp),
      w\<lparr>events := events w @ [Called (metadata_request s)]\<rparr>)"
  by (simp add: generateMetadata_def generateContent_def split: sum.splits)

lemma generateMetadata_not_string:
  "\<not> is_string v \<Longrightarrow> generateMetadata service parse v w = (Inl TypeError, w)"
  by (auto simp: generateMetadata_def is_string_def split: option.splits json.splits)

lemma generateThumbnailContent_not_string:
  "\<not> is_string v \<Longrightarrow> generateThumbnailContent service parse v w = (Inl TypeError, w)"
  by (auto simp: generateThumbnailContent_def is_string_def split: option.splits json.splits)

lemma generateThumbnailContent_eq:
  "generateThumbnailContent service parse (Some (JStr s)) w =
     (case service (length (calls (events w))) (thumbnail_request s) of
        Inl e \<Rightarrow> (Inl e, w\<lparr>events := events w @ [Called (thumbnail_request s)]\<rparr>)
      | Inr textResponse \<Rightarrow>
          (case parse_text parse textResponse of
             Inl e \<Rightarrow> (Inl e, w\<lparr>events := events w @ [Called (thumbnail_request s)]\<rparr>)
           | Inr textData \<Rightarrow>
               thumbnail_from_text service textData
                 (w\<lparr>events := events w @ [Called (thumbnail_request s)]\<rparr>)))"
  by (simp add: generateThumbnailContent_def generateContent_def split: sum.splits)

lemma thumbnail_from_text_eq:
  "thumbnail_from_text service textData w =
     (case get_prop (Some textData) ''imagePrompt'' of
        Inl e \<Rightarrow> (Inl e, w)
      | Inr described \<Rightarrow>
          (case ToString described of
             Inl e \<Rightarrow> (Inl e, w)
           | Inr t \<Rightarrow>
               ((case service (length (calls (events w))) (image_request (thumbnail_image_prompt t)) of
                   Inl e \<Rightarrow> Inl e
                 | Inr resp \<Rightarrow>
                     (case get_prop (Some textData) ''copySuggestions'' of
                        Inl e \<Rightarrow> Inl e
                      | Inr suggestions \<Rightarrow>
                          Inr \<lparr>pureImageUrl = Some (image_url resp), mockupImageUrl = None,
                               copySuggestions = suggestions\<rparr>)),
                w\<lparr>events := events w @ [Called (image_request (thumbnail_image_prompt t))]\<rparr>)))"
  by (simp add: thumbnail_from_text_def generateImage_eq ToString_def split: sum.splits)

lemma operation_of_requests [simp]:
  "operation_of (research_request t) = ResearchCall"
  "operation_of (script_request r len) = ScriptCall"
  "operation_of (image_request p) = ImageCall"
  "operation_of (metadata_request s) = MetadataCall"
  "operation_of (thumbnail_request s) = ThumbnailCall"
  by (simp_all add: operation_of_def research_request_def script_request_def image_request_def
      metadata_request_def thumbnail_request_def)

section \<open>Effects of the operations\<close>

text \<open>
  Every operation only appends to the events. The lemmas say what each appends, and what
  of the state it leaves alone.
\<close>

lemma generateImage_effects:
  assumes "generateImage service v w = (r, w')"
  shows "state w' = state w
    \<and> (events w' = events w \<or> (\<exists>p. events w' = events w @ [Called (image_request p)]))"
  using assms by (auto simp: generateImage_eq split: sum.splits)

lemma generateMetadata_effects:
  assumes "generateMetadata service parse v w = (r, w')"
  shows "state w' = state w
    \<and> (\<exists>es. events w' = events w @ es
          \<and> prefix (map operation_of (calls es)) [MetadataCall]
          \<and> stage_updates es = [] \<and> Alert \<notin> set es \<and> \<not> list_ex writes_mockup es
          \<and> (\<forall>md. r = Inr md \<longrightarrow> map operation_of (calls es) = [MetadataCall] \<and> is_string v))"
proof (cases "is_string v")
  case False
  with assms show ?thesis
    by (auto simp: generateMetadata_not_string)
next
  case True
  then obtain s where "v = Some (JStr s)"
    by (auto simp: is_string_def split: option.splits json.splits)
  with assms show ?thesis
    by (auto simp: generateMetadata_eq is_string_def split: sum.splits)
qed

lemma generateThumbnailContent_effects:
  assumes "generateThumbnailContent service parse v w = (r, w')"
  shows "state w' = state w
    \<and> (\<exists>es. events w' = events w @ es
          \<and> prefix (map operation_of (calls es)) [ThumbnailCall, ImageCall]
          \<and> stage_updates es = [] \<and> Alert \<notin> set es \<and> \<not> list_ex writes_mockup es
          \<and> (\<forall>th. r = Inr th \<longrightarrow>
                map operation_of (calls es) = [ThumbnailCall, ImageCall]
                \<and> mockupImageUrl th = None))"
proof (cases "is_string v")
  case False
  with assms show ?thesis
    by (auto simp: generateThumbnailContent_not_string)
next
  case True
  then obtain s where "v = Some (JStr s)"
    by (auto simp: is_string_def split: option.splits json.splits)
  with assms show ?thesis
    by (auto simp: generateThumbnailContent_eq thumbnail_from_text_eq split: sum.splits)
qed

lemma image_attempt_effects:
  assumes "image_attempt service i ps w = (ps', w')"
  shows "state w' = state w \<and> length ps' = length ps
    \<and> (\<exists>es. events w' = events w @ es \<and> list_all loop_event es)"
  using assms
  by (auto simp: image_attempt_def console_error_def split: sum.splits prod.splits
      dest!: generateImage_effects)

lemma image_step_effects:
  assumes "image_step service sd i ps w = (r, w')"
  shows "(\<exists>es. events w' = events w @ es \<and> list_all loop_event es)
    \<and> (state w')\<lparr>script := None\<rparr> = (state w)\<lparr>script := None\<rparr>"
  using assms
  by (auto simp: image_step_def Let_def updateState_def split: sum.splits prod.splits
      dest!: image_attempt_effects)

lemma images_loop_effects:
  "images_loop service sd i ps w = (r, w') \<Longrightarrow>
     (\<exists>es. events w' = events w @ es \<and> list_all loop_event es)
     \<and> (state w')\<lparr>script := None\<rparr> = (state w)\<lparr>script := None\<rparr>"
proof (induction service sd i ps w arbitrary: r w' rule: images_loop.induct)
  case (1 service sd i ps w)
  show ?case
  proof (cases "i < length ps")
    case False
    with "1.prems" show ?thesis by (simp add: images_loop.simps [of service sd i ps w])
  next
    case True
    obtain r1 w1 where step: "image_step service sd i ps w = (r1, w1)"
      by (cases "image_step service sd i ps w")
    note s1 = image_step_effects [OF step]
    show ?thesis
    proof (cases r1)
      case (Inl e)
      with True step "1.prems" s1 show ?thesis
        by (simp add: images_loop.simps [of service sd i ps w])
    next
      case (Inr ps1)
      with True step "1.prems" have rest: "images_loop service sd (Suc i) ps1 w1 = (r, w')"
        by (simp add: images_loop.simps [of service sd i ps w])
      from "1.IH" [OF True step [symmetric] Inr rest] s1 show ?thesis
        by (auto simp: list_all_append)
    qed
  qed
qed

lemma loop_events_no_stage: "list_all loop_event es \<Longrightarrow> stage_updates es = []"
  by (induction es rule: stage_updates.induct)
    (auto split: list.splits field_update.splits)

lemma loop_events_no_alert: "list_all loop_event es \<Longrightarrow> Alert \<notin> set es"
  by (induction es) auto

lemma loop_events_no_mockup: "list_all loop_event es \<Longrightarrow> \<not> list_ex writes_mockup es"
  by (induction es rule: stage_updates.induct)
    (auto split: list.splits field_update.splits)

lemma loop_events_image_calls:
  "list_all loop_event es \<Longrightarrow>
     map operation_of (calls es) = replicate (length (calls es)) ImageCall"
  by (induction es rule: calls.induct) auto

lemma top_stages_effects:
  assumes "top_stages service parse t len w = (r, w')"
  shows "\<exists>es. events w' = events w @ es
     \<and> prefix (map operation_of (calls es))
          [ResearchCall, ScriptCall, MetadataCall, ThumbnailCall, ImageCall]
     \<and> calls es \<noteq> []
     \<and> prefix (stage_updates es) [SCRIPT, METADATA, THUMBNAIL]
     \<and> Alert \<notin> set es \<and> \<not> list_ex writes_mockup es
     \<and> isProcessing (state w') = isProcessing (state w)
     \<and> (\<forall>sd. r = Inr sd \<longrightarrow>
           map operation_of (calls es)
             = [ResearchCall, ScriptCall, MetadataCall, ThumbnailCall, ImageCall]
           \<and> stage_updates es = [SCRIPT, METADATA, THUMBNAIL]
           \<and> currentStep (state w') = THUMBNAIL \<and> research (state w') \<noteq> None
           \<and> script (state w') = Some sd \<and> metadata (state w') \<noteq> None
           \<and> thumbnail (state w') \<noteq> None)"
  using assms
  by (auto simp: top_stages_def performResearch_eq generateScript_eq Let_def updateState_def
      calls_append stage_updates_append prefix_Cons
      split: sum.splits prod.splits
      dest!: generateMetadata_effects generateThumbnailContent_effects)

lemma prefix_replicate: "k \<le> n \<Longrightarrow> prefix (replicate k x) (replicate n x)"
proof -
  assume "k \<le> n"
  then have "replicate n x = replicate k x @ replicate (n - k) x"
    by (simp add: replicate_add [symmetric])
  then show ?thesis by simp
qed

lemma images_stage_effects:
  assumes "images_stage service sd w = (r, w')"
  shows "(\<exists>es. events w' = events w @ SetState [CurrentStep IMAGES] # es \<and> list_all loop_event es)
    \<and> (state w')\<lparr>script := None\<rparr> = (state w)\<lparr>script := None, currentStep := IMAGES\<rparr>"
  using assms
  by (auto simp: images_stage_def Let_def updateState_def split: sum.splits
      dest!: images_loop_effects)

lemma try_body_effects:
  assumes "try_body service parse t len w = (r, w')"
  shows "\<exists>es. events w' = events w @ es
     \<and> prefix (map operation_of (calls es))
          ([ResearchCall, ScriptCall, MetadataCall, ThumbnailCall, ImageCall]
           @ replicate (length (calls es)) ImageCall)
     \<and> calls es \<noteq> []
     \<and> prefix (stage_updates es) [SCRIPT, METADATA, THUMBNAIL, IMAGES]
     \<and> Alert \<notin> set es \<and> \<not> list_ex writes_mockup es
     \<and> isProcessing (state w') = isProcessing (state w)
     \<and> (\<forall>done. r = Inr done \<longrightarrow>
           prefix [ResearchCall, ScriptCall, MetadataCall, ThumbnailCall, ImageCall]
             (map operation_of (calls es))
           \<and> stage_updates es = [SCRIPT, METADATA, THUMBNAIL, IMAGES])"
proof -
  obtain r1 w1 where top: "top_stages service parse t len w = (r1, w1)"
    by (cases "top_stages service parse t len w")
  from top_stages_effects [OF top] obtain es1 where
    e1: "events w1 = events w @ es1"
    and p1: "prefix (map operation_of (calls es1))
          [ResearchCall, ScriptCall, MetadataCall, ThumbnailCall, ImageCall]"
    and n1: "calls es1 \<noteq> []"
    and s1: "prefix (stage_updates es1) [SCRIPT, METADATA, THUMBNAIL]"
    and a1: "Alert \<notin> set es1" and m1: "\<not> list_ex writes_mockup es1"
    and ip1: "isProcessing (state w1) = isProcessing (state w)"
    and ok1: "\<forall>sd. r1 = Inr sd \<longrightarrow>
           map operation_of (calls es1)
             = [ResearchCall, ScriptCall, MetadataCall, ThumbnailCall, ImageCall]
           \<and> stage_updates es1 = [SCRIPT, METADATA, THUMBNAIL]"
    by blast
  show ?thesis
  proof (cases r1)
    case (Inl e)
    with top assms have "r = Inl e" "w' = w1"
      by (simp_all add: try_body_def)
    moreover note ip1
    moreover have "prefix (stage_updates es1) [SCRIPT, METADATA, THUMBNAIL, IMAGES]"
      using s1 prefix_prefix [of "stage_updates es1" "[SCRIPT, METADATA, THUMBNAIL]" "[IMAGES]"]
      by simp
    moreover have "prefix (map operation_of (calls es1))
          ([ResearchCall, ScriptCall, MetadataCall, ThumbnailCall, ImageCall]
           @ replicate (length (calls es1)) ImageCall)"
      using p1 by (rule prefix_prefix)
    ultimately show ?thesis
      using e1 n1 a1 m1 by (intro exI [of _ es1]) simp
  next
    case (Inr sd)
    with top assms have img: "images_stage service sd w1 = (r, w')"
      by (simp add: try_body_def)
    from images_stage_effects [OF img] obtain es2 where
      e2: "events w' = events w1 @ SetState [CurrentStep IMAGES] # es2"
      and l2: "list_all loop_event es2"
      and st2: "(state w')\<lparr>script := None\<rparr> = (state w1)\<lparr>script := None, currentStep := IMAGES\<rparr>"
      by blast
    from st2 have "isProcessing ((state w')\<lparr>script := None\<rparr>)
        = isProcessing ((state w1)\<lparr>script := None, currentStep := IMAGES\<rparr>)"
      by simp
    then have ip: "isProcessing (state w') = isProcessing (state w1)" by simp
    let ?es = "es1 @ SetState [CurrentStep IMAGES] # es2"
    have ops: "map operation_of (calls ?es)
        = [ResearchCall, ScriptCall, MetadataCall, ThumbnailCall, ImageCall]
          @ replicate (length (calls es2)) ImageCall"
      using ok1 Inr loop_events_image_calls [OF l2] by (simp add: calls_append)
    have "length (calls es2) \<le> length (calls ?es)"
      by (simp add: calls_append)
    then have pre: "prefix (map operation_of (calls ?es))
          ([ResearchCall, ScriptCall, MetadataCall, ThumbnailCall, ImageCall]
           @ replicate (length (calls ?es)) ImageCall)"
      unfolding ops by (simp only: same_prefix_prefix prefix_replicate)
    have five: "prefix [ResearchCall, ScriptCall, MetadataCall, ThumbnailCall, ImageCall]
             (map operation_of (calls ?es))"
      unfolding ops by simp
    have st: "stage_updates ?es = [SCRIPT, METADATA, THUMBNAIL, IMAGES]"
      using ok1 Inr loop_events_no_stage [OF l2] by (simp add: stage_updates_append)
    have "Alert \<notin> set ?es" "\<not> list_ex writes_mockup ?es" "calls ?es \<noteq> []"
      using a1 m1 n1 loop_events_no_alert [OF l2] loop_events_no_mockup [OF l2]
      by (simp_all add: calls_append)
    with e1 e2 pre five st ip ip1 show ?thesis
      by (intro exI [of _ ?es]) simp
  qed
qed

section \<open>The image loop on well-formed scenes\<close>

lemma scene_request_obj:
  "ToString (map_of kvs ''imagePrompt'') = Inr p \<Longrightarrow> scene_request (JObj kvs) = image_request p"
  by (simp add: scene_request_def)

lemma image_step_good:
  assumes i: "i < length ps" and obj: "ps ! i = JObj kvs"
    and p: "ToString (map_of kvs ''imagePrompt'') = Inr p"
  shows "\<exists>w'. image_step service sd i ps w
        = (Inr (ps[i := scene_done (ps ! i)
                          (service (length (calls (events w))) (scene_request (ps ! i)))]), w')
      \<and> state w' = (state w)\<lparr>script :=
            Some (with_paragraphs sd
              (ps[i := scene_done (ps ! i)
                         (service (length (calls (events w))) (scene_request (ps ! i)))]))\<rparr>
      \<and> calls (events w') = calls (events w) @ [scene_request (ps ! i)]"
  using assms
  by (auto simp: image_step_def image_attempt_def Let_def at_index_def generateImage_eq
      scene_request_obj scene_done_def updateState_def console_error_def calls_append
      update_conv' split: sum.splits)

lemma is_ParagraphItem_good: "is_ParagraphItem p \<Longrightarrow> good_scene p"
  by (cases p)
    (auto simp: is_string_def ToString_def split: option.splits json.splits)

lemma good_scene_object:
  "good_scene p \<Longrightarrow> \<exists>kvs t. p = JObj kvs \<and> ToString (map_of kvs ''imagePrompt'') = Inr t"
  by (cases p) (auto split: sum.splits)

lemma images_loop_good:
  assumes "\<forall>j. i \<le> j \<and> j < length ps \<longrightarrow> good_scene (ps ! j)"
  shows "\<exists>ps' w'. images_loop service sd i ps w = (Inr ps', w')
      \<and> length ps' = length ps
      \<and> (\<forall>j < length ps. ps' ! j =
            (if j < i then ps ! j
             else scene_done (ps ! j)
                    (service (length (calls (events w)) + (j - i)) (scene_request (ps ! j)))))
      \<and> state w' = (if i < length ps then (state w)\<lparr>script := Some (with_paragraphs sd ps')\<rparr>
                     else state w)
      \<and> calls (events w') = calls (events w) @ map scene_request (drop i ps)"
  using assms
proof (induction "length ps - i" arbitrary: i ps w)
  case 0
  then have "\<not> i < length ps" by simp
  then show ?case by (simp add: images_loop.simps [of service sd i ps w])
next
  case (Suc n)
  then have i: "i < length ps" by simp
  with Suc.prems obtain kvs t where obj: "ps ! i = JObj kvs"
    and t: "ToString (map_of kvs ''imagePrompt'') = Inr t"
    by (auto dest!: good_scene_object)
  define d where "d = scene_done (ps ! i) (service (length (calls (events w))) (scene_request (ps ! i)))"
  from image_step_good [OF i obj t, of service sd w]
  obtain w1 where step: "image_step service sd i ps w = (Inr (ps[i := d]), w1)"
    and st1: "state w1 = (state w)\<lparr>script := Some (with_paragraphs sd (ps[i := d]))\<rparr>"
    and c1: "calls (events w1) = calls (events w) @ [scene_request (ps ! i)]"
    by (auto simp: d_def)
  have len: "n = length (ps[i := d]) - Suc i"
    using Suc.hyps(2) by simp
  have good: "\<forall>j. Suc i \<le> j \<and> j < length (ps[i := d]) \<longrightarrow> good_scene (ps[i := d] ! j)"
    using Suc.prems by auto
  from Suc.hyps(1) [OF len good, of w1]
  obtain ps' w' where loop: "images_loop service sd (Suc i) (ps[i := d]) w1 = (Inr ps', w')"
    and l: "length ps' = length ps"
    and nth: "\<forall>j < length ps. ps' ! j =
            (if j < Suc i then ps[i := d] ! j
             else scene_done (ps[i := d] ! j)
                    (service (length (calls (events w1)) + (j - Suc i)) (scene_request (ps[i := d] ! j))))"
    and st: "state w' = (if Suc i < length ps then (state w1)\<lparr>script := Some (with_paragraphs sd ps')\<rparr>
                     else state w1)"
    and c: "calls (events w') = calls (events w1) @ map scene_request (drop (Suc i) (ps[i := d]))"
    by auto
  have whole: "images_loop service sd i ps w = (Inr ps', w')"
    using i step loop by (simp add: images_loop.simps [of service sd i ps w])
  have nth': "\<forall>j < length ps. ps' ! j =
            (if j < i then ps ! j
             else scene_done (ps ! j)
                    (service (length (calls (events w)) + (j - i)) (scene_request (ps ! j))))"
  proof (intro allI impI)
    fix j assume j: "j < length ps"
    consider "j < i" | "j = i" | "i < j" by linarith
    then show "ps' ! j =
            (if j < i then ps ! j
             else scene_done (ps ! j)
                    (service (length (calls (events w)) + (j - i)) (scene_request (ps ! j))))"
    proof cases
      case 1
      with nth j show ?thesis by simp
    next
      case 2
      with nth j i show ?thesis by (simp add: d_def)
    next
      case 3
      have e: "length (calls (events w1)) + (j - Suc i) = length (calls (events w)) + (j - i)"
        using 3 c1 by simp
      from nth j 3 have "ps' ! j = scene_done (ps ! j)
          (service (length (calls (events w1)) + (j - Suc i)) (scene_request (ps ! j)))"
        by auto
      then have "ps' ! j = scene_done (ps ! j)
          (service (length (calls (events w)) + (j - i)) (scene_request (ps ! j)))"
        by (simp only: e)
      with 3 show ?thesis by simp
    qed
  qed
  have last: "Suc i = length ps \<Longrightarrow> ps' = ps[i := d]"
  proof (rule nth_equalityI)
    show "length ps' = length (ps[i := d])" using l by simp
  next
    fix j assume a: "Suc i = length ps" and "j < length ps'"
    with l nth show "ps' ! j = ps[i := d] ! j" by simp
  qed
  have st': "state w' = (state w)\<lparr>script := Some (with_paragraphs sd ps')\<rparr>"
  proof (cases "Suc i < length ps")
    case True
    with st st1 show ?thesis by simp
  next
    case False
    with i have "Suc i = length ps" by simp
    with last st st1 show ?thesis by simp
  qed
  have c': "calls (events w') = calls (events w) @ map scene_request (drop i ps)"
    using c c1 i by (simp add: Cons_nth_drop_Suc [symmetric] drop_update_cancel)
  from whole l nth' st' c' i show ?case by simp
qed

section \<open>The empty topic\<close>

text \<open>
  Claim C9. Started with an empty topic, \<^verbatim>\<open>startWorkflow\<close> returns at its guard:
  the state is the one it was called in (so \<^verbatim>\<open>isProcessing\<close> and
  \<^verbatim>\<open>currentStep\<close> are as before and no result is written), and nothing is sent,
  published, logged or alerted.
\<close>

theorem empty_topic_leaves_state:
  "topic (state w) = '''' \<Longrightarrow> startWorkflow service parse w = w"
  by (simp add: startWorkflow_def)

theorem empty_topic_leaves_state_witness:
  "topic (state \<lparr>state = initialState, events = []\<rparr>) = ''''
   \<and> startWorkflow (demo_service {}) demo_parse \<lparr>state = initialState, events = []\<rparr>
       = \<lparr>state = initialState, events = []\<rparr>
   \<and> isProcessing (state (run (demo_service {}) demo_parse initialState)) = False
   \<and> currentStep (state (run (demo_service {}) demo_parse initialState)) = INPUT
   \<and> events (run (demo_service {}) demo_parse initialState) = []"
  using empty_topic_leaves_state [of "\<lparr>state = initialState, events = []\<rparr>" "demo_service {}" demo_parse]
  by (simp add: initialState_def run_def)

section \<open>Research\<close>

text \<open>
  Claim C8 says that research fails when the response has no text, and that the result
  is then a report without sources. On a response without text and with one grounding
  chunk, \<^verbatim>\<open>performResearch\<close> returns: an empty report, and the chunk's source with
  both defaults.
\<close>

theorem research_no_text_counterexample:
  "fst (performResearch (\<lambda>n req. Inr no_text_response) ''tea'' demo_world)
   = Inr \<lparr>report = '''', sources = [\<lparr>title = source_placeholder, uri = ''#''\<rparr>]\<rparr>"
  by (simp add: performResearch_def generateContent_def no_text_response_def or_else_def
      grounding_sources_def first_candidate_def chunk_source_def)

text \<open>
  Claim C8, amended. \<^verbatim>\<open>performResearch\<close> fails exactly when the request is
  rejected. On a response it returns the response's text as the report, the empty string
  when there is none, with one source per grounding chunk of the first candidate (none
  when the candidate or its chunks are missing); a missing or empty title becomes the
  placeholder and a missing or empty uri becomes \<^verbatim>\<open>#\<close>.
\<close>

theorem research_fails_iff_rejected:
  "((\<exists>e. fst (performResearch service t w) = Inl e)
      = (\<exists>e. service (length (calls (events w))) (research_request t) = Inl e))
    \<and> (\<forall>resp. service (length (calls (events w))) (research_request t) = Inr resp \<longrightarrow>
          fst (performResearch service t w)
          = Inr \<lparr>report = (case response_text resp of None \<Rightarrow> '''' | Some s \<Rightarrow> s),
                 sources = grounding_sources resp\<rparr>)
    \<and> (\<forall>resp. first_candidate resp = None \<longrightarrow> grounding_sources resp = [])
    \<and> (\<forall>resp c. first_candidate resp = Some c \<and> groundingChunks c = None \<longrightarrow>
          grounding_sources resp = [])
    \<and> (\<forall>resp c chunks. first_candidate resp = Some c \<and> groundingChunks c = Some chunks \<longrightarrow>
          grounding_sources resp = map chunk_source chunks)
    \<and> (\<forall>c. title (chunk_source c)
             = (case web c of
                  None \<Rightarrow> source_placeholder
                | Some wb \<Rightarrow>
                    (case web_title wb of
                       None \<Rightarrow> source_placeholder
                     | Some s \<Rightarrow> if s = '''' then source_placeholder else s)))
    \<and> (\<forall>c. uri (chunk_source c)
             = (case web c of
                  None \<Rightarrow> ''#''
                | Some wb \<Rightarrow>
                    (case web_uri wb of None \<Rightarrow> ''#'' | Some s \<Rightarrow> if s = '''' then ''#'' else s)))"
  by (auto simp: performResearch_def generateContent_def or_else_def grounding_sources_def
      chunk_source_def split: sum.splits option.splits)

theorem research_fails_iff_rejected_witness:
  "fst (performResearch (demo_service {}) ''tea'' demo_world)
     = Inr \<lparr>report = ''report'',
            sources = [\<lparr>title = source_placeholder, uri = ''https://example.org''\<rparr>]\<rparr>
   \<and> fst (performResearch (demo_service {0}) ''tea'' demo_world) = Inl (Rejected ''unavailable'')"
  using research_fails_iff_rejected [of "demo_service {}" "''tea''" demo_world]
    research_fails_iff_rejected [of "demo_service {0}" "''tea''" demo_world]
  by (simp add: demo_service_def demo_world_def research_response_def grounding_sources_def
        first_candidate_def chunk_source_def or_else_def performResearch_def generateContent_def)


section \<open>The whole run, and the retry\<close>

lemma startWorkflow_effects:
  assumes "topic (state w) \<noteq> ''''"
  shows "\<exists>es. events (startWorkflow service parse w) = events w @ es
     \<and> prefix (map operation_of (calls es))
          ([ResearchCall, ScriptCall, MetadataCall, ThumbnailCall, ImageCall]
           @ replicate (length (calls es)) ImageCall)
     \<and> calls es \<noteq> []
     \<and> prefix (stage_updates es) [RESEARCH, SCRIPT, METADATA, THUMBNAIL, IMAGES]
     \<and> stage_updates es \<noteq> []
     \<and> \<not> list_ex writes_mockup es
     \<and> isProcessing (state (startWorkflow service parse w)) = False
     \<and> (Alert \<notin> set es \<longrightarrow>
           prefix [ResearchCall, ScriptCall, MetadataCall, ThumbnailCall, ImageCall]
             (map operation_of (calls es))
           \<and> stage_updates es = [RESEARCH, SCRIPT, METADATA, THUMBNAIL, IMAGES])"
proof -
  let ?w1 = "updateState [IsProcessing True, CurrentStep RESEARCH] w"
  obtain r w2 where body: "try_body service parse (topic (state w)) (length' (state w)) ?w1 = (r, w2)"
    by (cases "try_body service parse (topic (state w)) (length' (state w)) ?w1")
  from try_body_effects [OF body] obtain es where
    e: "events w2 = events ?w1 @ es"
    and p: "prefix (map operation_of (calls es))
          ([ResearchCall, ScriptCall, MetadataCall, ThumbnailCall, ImageCall]
           @ replicate (length (calls es)) ImageCall)"
    and n: "calls es \<noteq> []"
    and s: "prefix (stage_updates es) [SCRIPT, METADATA, THUMBNAIL, IMAGES]"
    and a: "Alert \<notin> set es" and m: "\<not> list_ex writes_mockup es"
    and ok: "\<forall>done. r = Inr done \<longrightarrow>
           prefix [ResearchCall, ScriptCall, MetadataCall, ThumbnailCall, ImageCall]
             (map operation_of (calls es))
           \<and> stage_updates es = [SCRIPT, METADATA, THUMBNAIL, IMAGES]"
    by blast
  show ?thesis
  proof (cases r)
    case (Inl err)
    let ?es = "SetState [IsProcessing True, CurrentStep RESEARCH] # es
                 @ [ConsoleError, Alert, SetState [IsProcessing False]]"
    from Inl body assms e
    have "events (startWorkflow service parse w) = events w @ ?es"
      and "isProcessing (state (startWorkflow service parse w)) = False"
      by (simp_all add: startWorkflow_def Let_def updateState_def)
    with p n s m show ?thesis
      by (intro exI [of _ ?es]) (simp add: calls_append stage_updates_append)
  next
    case (Inr fin)
    let ?es = "SetState [IsProcessing True, CurrentStep RESEARCH] # es
                 @ [SetState [IsProcessing False]]"
    from Inr body assms e
    have "events (startWorkflow service parse w) = events w @ ?es"
      and "isProcessing (state (startWorkflow service parse w)) = False"
      by (simp_all add: startWorkflow_def Let_def updateState_def)
    with p n s m ok Inr show ?thesis
      by (intro exI [of _ ?es]) (simp add: calls_append stage_updates_append)
  qed
qed

lemma retryImage_eq:
  "retryImage service index w =
     (case script (state w) of
        None \<Rightarrow> (Inr (), w)
      | Some sc \<Rightarrow>
          (if \<not> truthy sc then (Inr (), w)
           else
             (case get_prop (Some sc) ''paragraphs'' of
                Inl e \<Rightarrow> (Inl e, w)
              | Inr pv \<Rightarrow>
                  (case spread pv of
                     Inl e \<Rightarrow> (Inl e, w)
                   | Inr ps \<Rightarrow>
                       (case image_step service sc index ps w of
                          (Inl e, w') \<Rightarrow> (Inl e, w')
                        | (Inr ps', w') \<Rightarrow> (Inr (), w'))))))"
  by (auto simp: retryImage_def image_step_def Let_def split: option.splits sum.splits prod.splits)

lemma retryImage_effects:
  assumes "retryImage service index w = (r, w')"
  shows "(\<exists>es. events w' = events w @ es \<and> list_all loop_event es)
    \<and> (state w')\<lparr>script := None\<rparr> = (state w)\<lparr>script := None\<rparr>"
  using assms
  by (auto simp: retryImage_eq split: option.splits sum.splits prod.splits if_splits
      dest!: image_step_effects)

lemma is_ScriptData_object:
  "is_ScriptData sc \<Longrightarrow>
     \<exists>kvs ps. sc = JObj kvs \<and> map_of kvs ''paragraphs'' = Some (JArr (paragraphs_of sc) ps)
       \<and> list_all is_ParagraphItem (paragraphs_of sc)"
  by (cases sc) (auto simp: paragraphs_of_def split: option.splits json.splits)

lemma paragraphs_of_with_paragraphs:
  "paragraphs_of (with_paragraphs sc ps) = ps"
  by (simp add: paragraphs_of_def with_paragraphs_def update_conv')

lemma scene_done_fields:
  assumes "is_ParagraphItem p"
  shows "get_prop (Some (scene_done p out)) ''imageUrl''
      = (case out of Inl e \<Rightarrow> get_prop (Some p) ''imageUrl''
         | Inr resp \<Rightarrow> Inr (Some (JStr (image_url resp))))"
    and "get_prop (Some (scene_done p out)) ''isGenerating'' = Inr (Some (JBool False))"
    and "k \<noteq> ''imageUrl'' \<Longrightarrow> k \<noteq> ''isGenerating'' \<Longrightarrow>
         get_prop (Some (scene_done p out)) k = get_prop (Some p) k"
  using assms
  by (cases p; auto simp: scene_done_def update_conv' split: sum.splits)+

text \<open>
  The URL of a response is empty exactly when no part has inline data. What a run adds
  after the four single calls, and the image stage on a script of the declared shape.
\<close>

lemma first_inline_empty:
  "(first_inline ps = '''') = list_all (\<lambda>p. inlineData p = None) ps"
  by (induction ps) (auto split: option.splits)

lemma image_url_empty:
  "(image_url resp = '''') = list_all (\<lambda>p. inlineData p = None) (content_parts resp)"
  by (simp add: image_url_def content_parts_def first_inline_empty)

lemma run_after_top_stages:
  assumes topic: "topic s \<noteq> ''''"
    and top: "top_stages service parse (topic s) (length' s)
        (updateState [IsProcessing True, CurrentStep RESEARCH] \<lparr>state = s, events = []\<rparr>)
        = (r, w)"
  shows "\<exists>es. events w = SetState [IsProcessing True, CurrentStep RESEARCH] # es
      \<and> prefix (map operation_of (calls es))
           [ResearchCall, ScriptCall, MetadataCall, ThumbnailCall, ImageCall]
      \<and> prefix (stage_updates es) [SCRIPT, METADATA, THUMBNAIL]
      \<and> (\<forall>sd. r = Inr sd \<longrightarrow>
            map operation_of (calls es)
              = [ResearchCall, ScriptCall, MetadataCall, ThumbnailCall, ImageCall]
            \<and> stage_updates es = [SCRIPT, METADATA, THUMBNAIL])"
    and "\<forall>e. r = Inl e \<longrightarrow>
      events (run service parse s) = events w @ [ConsoleError, Alert, SetState [IsProcessing False]]"
    and "\<forall>sd. r = Inr sd \<longrightarrow>
      stage_updates (events (run service parse s)) = stage_updates (events w) @ [IMAGES]
      \<and> (\<forall>ps' w'. images_stage service sd w = (Inr ps', w') \<longrightarrow>
            events (run service parse s) = events w' @ [SetState [IsProcessing False]])"
proof -
  let ?w0 = "updateState [IsProcessing True, CurrentStep RESEARCH] \<lparr>state = s, events = []\<rparr>"
  from top_stages_effects [OF top]
  show "\<exists>es. events w = SetState [IsProcessing True, CurrentStep RESEARCH] # es
      \<and> prefix (map operation_of (calls es))
           [ResearchCall, ScriptCall, MetadataCall, ThumbnailCall, ImageCall]
      \<and> prefix (stage_updates es) [SCRIPT, METADATA, THUMBNAIL]
      \<and> (\<forall>sd. r = Inr sd \<longrightarrow>
            map operation_of (calls es)
              = [ResearchCall, ScriptCall, MetadataCall, ThumbnailCall, ImageCall]
            \<and> stage_updates es = [SCRIPT, METADATA, THUMBNAIL])"
    by (auto simp: updateState_def)
  show "\<forall>e. r = Inl e \<longrightarrow>
      events (run service parse s) = events w @ [ConsoleError, Alert, SetState [IsProcessing False]]"
    using topic top by (simp add: run_def startWorkflow_def try_body_def Let_def updateState_def)
  show "\<forall>sd. r = Inr sd \<longrightarrow>
      stage_updates (events (run service parse s)) = stage_updates (events w) @ [IMAGES]
      \<and> (\<forall>ps' w'. images_stage service sd w = (Inr ps', w') \<longrightarrow>
            events (run service parse s) = events w' @ [SetState [IsProcessing False]])"
  proof (intro allI impI)
    fix sd
    assume r: "r = Inr sd"
    obtain r2 w2 where img: "images_stage service sd w = (r2, w2)"
      by (cases "images_stage service sd w")
    from images_stage_effects [OF img] obtain es2 where
      e2: "events w2 = events w @ SetState [CurrentStep IMAGES] # es2"
      and l2: "list_all loop_event es2"
      by blast
    note quiet = loop_events_no_stage [OF l2] loop_events_no_alert [OF l2]
    show "stage_updates (events (run service parse s)) = stage_updates (events w) @ [IMAGES]
      \<and> (\<forall>ps' w'. images_stage service sd w = (Inr ps', w') \<longrightarrow>
            events (run service parse s) = events w' @ [SetState [IsProcessing False]])"
    proof (cases r2)
      case (Inl e)
      with topic top r img e2 quiet show ?thesis
        by (simp add: run_def startWorkflow_def try_body_def Let_def updateState_def
            stage_updates_append)
    next
      case (Inr fin)
      with topic top r img e2 quiet show ?thesis
        by (simp add: run_def startWorkflow_def try_body_def Let_def updateState_def
            stage_updates_append)
    qed
  qed
qed

lemma images_stage_good:
  assumes shape: "is_ScriptData sd"
  shows "\<exists>ps' w'. images_stage service sd w = (Inr ps', w')
     \<and> calls (events w') = calls (events w) @ map scene_request (paragraphs_of sd)"
proof -
  let ?ps = "paragraphs_of sd"
  let ?w1 = "updateState [CurrentStep IMAGES] w"
  from is_ScriptData_object [OF shape] obtain kvs props where
    obj: "sd = JObj kvs" and par: "map_of kvs ''paragraphs'' = Some (JArr ?ps props)"
    and items: "list_all is_ParagraphItem ?ps"
    by blast
  have good: "\<forall>j. 0 \<le> j \<and> j < length ?ps \<longrightarrow> good_scene (?ps ! j)"
    using items by (simp add: list_all_length is_ParagraphItem_good)
  from images_loop_good [OF good, of service sd ?w1]
  obtain ps' w' where loop: "images_loop service sd 0 ?ps ?w1 = (Inr ps', w')"
    and c0: "calls (events w') = calls (events ?w1) @ map scene_request (drop 0 ?ps)"
    by blast
  have "images_stage service sd w = (Inr ps', w')"
    using loop obj par by (simp add: images_stage_def Let_def)
  moreover have "calls (events w') = calls (events w) @ map scene_request ?ps"
    using c0 by (simp add: updateState_def calls_append)
  ultimately show ?thesis by blast
qed

section \<open>The demo service, evaluated\<close>

lemmas demo_defs =
  demo_service_def demo_parse_def demo_state_def demo_world_def initialState_def
  demo_script_def demo_scene_def demo_script_text_def demo_metadata_def demo_metadata_text_def
  demo_thumbnail_def demo_thumbnail_text_def demo_suggestions_def text_response_def
  image_response_def research_response_def

lemma demo_parse_texts:
  "demo_parse ''{}'' = Some (JObj [])"
  "parse_text demo_parse (text_response demo_script_text) = Inr demo_script"
  "parse_text demo_parse (text_response demo_metadata_text) = Inr demo_metadata"
  "parse_text demo_parse (text_response demo_thumbnail_text) = Inr demo_thumbnail"
  "parse_text demo_parse (text_response broken_text) = Inl SyntaxError"
  by (simp_all add: demo_parse_def parse_text_def or_else_def text_response_def
      demo_script_text_def demo_metadata_text_def demo_thumbnail_text_def broken_text_def)

lemma demo_script_shape:
  "is_ScriptData demo_script"
  "paragraphs_of demo_script = [demo_scene ''1'' ''p0'', demo_scene ''2'' ''p1'', demo_scene ''3'' ''p2'']"
  "get_prop (Some demo_script) ''ttsScript'' = Inr (Some (JStr ''tts''))"
  by (simp_all add: demo_script_def demo_scene_def paragraphs_of_def is_string_def is_number_def
      is_optional_string_def is_optional_boolean_def)

lemma demo_image_url: "image_url (image_response d) = ''data:image/png;base64,'' @ d"
  by (simp add: image_url_def image_response_def first_candidate_def)

lemma demo_top_stages:
  "5 \<le> k \<Longrightarrow>
     fst (top_stages (demo_service {k}) demo_parse ''tea'' MEDIUM
            (updateState [IsProcessing True, CurrentStep RESEARCH] demo_world))
     = Inr demo_script"
  by (simp add: top_stages_def performResearch_eq generateScript_eq generateMetadata_eq
      generateThumbnailContent_eq thumbnail_from_text_eq parse_text_def or_else_def
      updateState_def Let_def ToString_def calls_append demo_defs)

section \<open>Failure of one scene's image\<close>

text \<open>
  Claim C1. Take a run that reaches the image loop (the four single calls succeeded and
  left the script \<open>scriptData\<close>, of the declared shape), in which the image request of
  scene \<open>i\<close> is rejected and those of the other scenes are answered; scene \<open>i\<close> came
  without an image. Then every other scene ends with the URL made of its response, scene
  \<open>i\<close> ends without \<^verbatim>\<open>imageUrl\<close>, every scene ends with \<^verbatim>\<open>isGenerating\<close>
  false, the image request of every scene was sent, in order, the research, metadata and
  thumbnail committed before the loop are as they were and so is the script but for
  \<^verbatim>\<open>imageUrl\<close> and \<^verbatim>\<open>isGenerating\<close> of its scenes, and the run ends, without
  alert, with \<^verbatim>\<open>isProcessing\<close> false.
\<close>

theorem image_failure_isolated:
  assumes topic: "topic s \<noteq> ''''"
    and reach: "top_stages service parse (topic s) (length' s)
        (updateState [IsProcessing True, CurrentStep RESEARCH] \<lparr>state = s, events = []\<rparr>)
        = (Inr scriptData, w)"
    and shape: "is_ScriptData scriptData"
    and i: "i < length (paragraphs_of scriptData)"
    and unset: "get_prop (Some (paragraphs_of scriptData ! i)) ''imageUrl'' = Inr None"
    and fails: "service (length (calls (events w)) + i)
        (scene_request (paragraphs_of scriptData ! i)) = Inl e"
    and others: "\<forall>j < length (paragraphs_of scriptData). j \<noteq> i \<longrightarrow>
        service (length (calls (events w)) + j) (scene_request (paragraphs_of scriptData ! j))
        = Inr (resp j)"
  shows "(\<forall>j < length (paragraphs_of scriptData). j \<noteq> i \<longrightarrow>
            scene_field (state (run service parse s)) j ''imageUrl''
            = Some (JStr (image_url (resp j))))
    \<and> scene_field (state (run service parse s)) i ''imageUrl'' = None
    \<and> (\<forall>j < length (paragraphs_of scriptData).
          scene_field (state (run service parse s)) j ''isGenerating'' = Some (JBool False))
    \<and> calls (events (run service parse s))
        = calls (events w) @ map scene_request (paragraphs_of scriptData)
    \<and> research (state (run service parse s)) = research (state w)
    \<and> research (state w) \<noteq> None
    \<and> metadata (state (run service parse s)) = metadata (state w)
    \<and> metadata (state w) \<noteq> None
    \<and> thumbnail (state (run service parse s)) = thumbnail (state w)
    \<and> thumbnail (state w) \<noteq> None
    \<and> (\<forall>k. k \<noteq> ''paragraphs'' \<longrightarrow>
          get_prop (script (state (run service parse s))) k = get_prop (Some scriptData) k)
    \<and> (\<forall>j k. j < length (paragraphs_of scriptData) \<and> k \<noteq> ''imageUrl'' \<and> k \<noteq> ''isGenerating'' \<longrightarrow>
          scene_field (state (run service parse s)) j k
          = scene_field (state w) j k)
    \<and> isProcessing (state (run service parse s)) = False
    \<and> Alert \<notin> set (events (run service parse s))"
proof -
  let ?ps = "paragraphs_of scriptData"
  let ?n = "length (calls (events w))"
  let ?w0 = "updateState [IsProcessing True, CurrentStep RESEARCH] \<lparr>state = s, events = []\<rparr>"
  from top_stages_effects [OF reach] obtain es where
    ev: "events w = events ?w0 @ es" and noalert: "Alert \<notin> set es"
    and pop: "research (state w) \<noteq> None" "script (state w) = Some scriptData"
      "metadata (state w) \<noteq> None" "thumbnail (state w) \<noteq> None"
    by blast
  from is_ScriptData_object [OF shape] obtain kvs props where
    obj: "scriptData = JObj kvs" and par: "map_of kvs ''paragraphs'' = Some (JArr ?ps props)"
    and items: "list_all is_ParagraphItem ?ps"
    by blast
  have item: "\<And>j. j < length ?ps \<Longrightarrow> is_ParagraphItem (?ps ! j)"
    using items by (simp add: list_all_length)
  let ?w1 = "updateState [CurrentStep IMAGES] w"
  have good: "\<forall>j. 0 \<le> j \<and> j < length ?ps \<longrightarrow> good_scene (?ps ! j)"
    using item by (simp add: is_ParagraphItem_good)
  have n1: "length (calls (events ?w1)) = ?n"
    by (simp add: updateState_def calls_append)
  from images_loop_good [OF good, of service scriptData ?w1]
  obtain ps' w' where loop: "images_loop service scriptData 0 ?ps ?w1 = (Inr ps', w')"
    and len: "length ps' = length ?ps"
    and nth0: "\<forall>j < length ?ps. ps' ! j =
            (if j < 0 then ?ps ! j
             else scene_done (?ps ! j)
                    (service (length (calls (events ?w1)) + (j - 0)) (scene_request (?ps ! j))))"
    and st0: "state w' = (if 0 < length ?ps
                     then (state ?w1)\<lparr>script := Some (with_paragraphs scriptData ps')\<rparr>
                     else state ?w1)"
    and c0: "calls (events w') = calls (events ?w1) @ map scene_request (drop 0 ?ps)"
    by blast
  have nth: "\<forall>j < length ?ps. ps' ! j
        = scene_done (?ps ! j) (service (?n + j) (scene_request (?ps ! j)))"
    using nth0 by (simp add: n1)
  have st: "state w' = (state ?w1)\<lparr>script := Some (with_paragraphs scriptData ps')\<rparr>"
    using st0 i by (cases "paragraphs_of scriptData") auto
  have c: "calls (events w') = calls (events w) @ map scene_request ?ps"
    using c0 by (simp add: updateState_def calls_append)
  from images_loop_effects [OF loop]
  have ev': "\<exists>es'. events w' = events ?w1 @ es' \<and> list_all loop_event es'"
    by blast
  have stage: "images_stage service scriptData w = (Inr ps', w')"
    using loop obj par by (simp add: images_stage_def Let_def)
  have body: "try_body service parse (topic s) (length' s) ?w0 = (Inr ps', w')"
    using reach stage by (simp add: try_body_def)
  have final: "run service parse s = updateState [IsProcessing False] w'"
    using topic body by (simp add: run_def startWorkflow_def Let_def)
  have scenes: "scenes_of (state (run service parse s)) = ps'"
    by (simp add: final st updateState_def scenes_of_def paragraphs_of_with_paragraphs)
  have before: "scenes_of (state w) = ?ps"
    by (simp add: pop scenes_of_def)
  have url: "\<forall>j < length ?ps. j \<noteq> i \<longrightarrow>
      scene_field (state (run service parse s)) j ''imageUrl'' = Some (JStr (image_url (resp j)))"
    using nth len others scene_done_fields(1) [OF item]
    by (simp add: scene_field_def scenes at_index_def)
  have failed: "scene_field (state (run service parse s)) i ''imageUrl'' = None"
    using nth len i fails unset scene_done_fields(1) [OF item [OF i]]
    by (simp add: scene_field_def scenes at_index_def)
  have gen: "\<forall>j < length ?ps.
      scene_field (state (run service parse s)) j ''isGenerating'' = Some (JBool False)"
    using nth len scene_done_fields(2) [OF item]
    by (simp add: scene_field_def scenes at_index_def)
  have kept: "\<forall>j k. j < length ?ps \<and> k \<noteq> ''imageUrl'' \<and> k \<noteq> ''isGenerating'' \<longrightarrow>
      scene_field (state (run service parse s)) j k = scene_field (state w) j k"
    using nth len scene_done_fields(3) [OF item]
    by (simp add: scene_field_def scenes before at_index_def)
  have reqs: "calls (events (run service parse s)) = calls (events w) @ map scene_request ?ps"
    using c by (simp add: final events_updateState calls_append)
  have fields: "research (state (run service parse s)) = research (state w)"
    "metadata (state (run service parse s)) = metadata (state w)"
    "thumbnail (state (run service parse s)) = thumbnail (state w)"
    "isProcessing (state (run service parse s)) = False"
    by (simp_all add: final st updateState_def)
  have script_kept: "\<forall>k. k \<noteq> ''paragraphs'' \<longrightarrow>
      get_prop (script (state (run service parse s))) k = get_prop (Some scriptData) k"
    by (simp add: final st updateState_def obj with_paragraphs_def update_conv')
  from ev' obtain es' where "events w' = events ?w1 @ es'" and "list_all loop_event es'"
    by blast
  with ev noalert loop_events_no_alert [of es']
  have quiet: "Alert \<notin> set (events (run service parse s))"
    by (simp add: final updateState_def)
  from url failed gen reqs fields pop script_kept kept quiet show ?thesis
    by simp
qed

theorem image_failure_isolated_witness:
  "scene_field (state (run (demo_service {6}) demo_parse demo_state)) 0 ''imageUrl''
     = Some (JStr ''data:image/png;base64,QUJD'')
   \<and> scene_field (state (run (demo_service {6}) demo_parse demo_state)) 1 ''imageUrl'' = None
   \<and> scene_field (state (run (demo_service {6}) demo_parse demo_state)) 2 ''imageUrl''
     = Some (JStr ''data:image/png;base64,QUJD'')
   \<and> scene_field (state (run (demo_service {6}) demo_parse demo_state)) 1 ''isGenerating''
     = Some (JBool False)
   \<and> length (calls (events (run (demo_service {6}) demo_parse demo_state))) = 8
   \<and> isProcessing (state (run (demo_service {6}) demo_parse demo_state)) = False
   \<and> Alert \<notin> set (events (run (demo_service {6}) demo_parse demo_state))"
proof -
  let ?w0 = "updateState [IsProcessing True, CurrentStep RESEARCH]
               \<lparr>state = demo_state, events = []\<rparr>"
  define w where
    "w = snd (top_stages (demo_service {6}) demo_parse (topic demo_state) (length' demo_state) ?w0)"
  have t: "topic demo_state \<noteq> ''''"
    by (simp add: demo_state_def)
  have reach: "top_stages (demo_service {6}) demo_parse (topic demo_state) (length' demo_state) ?w0
      = (Inr demo_script, w)"
    using demo_top_stages [of 6]
    by (simp add: w_def prod_eq_iff demo_state_def demo_world_def initialState_def)
  have n: "length (calls (events w)) = 5"
  proof -
    from top_stages_effects [OF reach] obtain es where
      e: "events w = events ?w0 @ es"
      and ops: "map operation_of (calls es)
          = [ResearchCall, ScriptCall, MetadataCall, ThumbnailCall, ImageCall]"
      by blast
    from ops have "length (map operation_of (calls es)) = 5" by simp
    with e show ?thesis by (simp add: events_updateState calls_append)
  qed
  have i: "1 < length (paragraphs_of demo_script)"
    by (simp add: demo_script_shape)
  have unset: "get_prop (Some (paragraphs_of demo_script ! 1)) ''imageUrl'' = Inr None"
    by (simp add: demo_script_shape demo_scene_def)
  have fails: "demo_service {6} (length (calls (events w)) + 1)
      (scene_request (paragraphs_of demo_script ! 1)) = Inl (Rejected ''unavailable'')"
    by (simp add: n demo_service_def)
  have others: "\<forall>j < length (paragraphs_of demo_script). j \<noteq> 1 \<longrightarrow>
      demo_service {6} (length (calls (events w)) + j)
        (scene_request (paragraphs_of demo_script ! j)) = Inr (image_response ''QUJD'')"
    by (simp add: n demo_service_def)
  note r = image_failure_isolated [where resp = "\<lambda>j. image_response ''QUJD''",
      OF t reach demo_script_shape(1) i unset fails others]
  have zero: "scene_field (state (run (demo_service {6}) demo_parse demo_state)) 0 ''imageUrl''
      = Some (JStr (image_url (image_response ''QUJD'')))"
    using r [THEN conjunct1, rule_format, of 0] by (simp add: demo_script_shape)
  have two: "scene_field (state (run (demo_service {6}) demo_parse demo_state)) 2 ''imageUrl''
      = Some (JStr (image_url (image_response ''QUJD'')))"
    using r [THEN conjunct1, rule_format, of 2] by (simp add: demo_script_shape)
  have gen: "scene_field (state (run (demo_service {6}) demo_parse demo_state)) 1 ''isGenerating''
      = Some (JBool False)"
    using r [THEN conjunct2, THEN conjunct2, THEN conjunct1, rule_format, of 1]
    by (simp add: demo_script_shape)
  from r have "calls (events (run (demo_service {6}) demo_parse demo_state))
      = calls (events w) @ map scene_request (paragraphs_of demo_script)"
    by blast
  then have count: "length (calls (events (run (demo_service {6}) demo_parse demo_state))) = 8"
    by (simp add: n demo_script_shape)
  from r have "scene_field (state (run (demo_service {6}) demo_parse demo_state)) 1 ''imageUrl'' = None"
    and "isProcessing (state (run (demo_service {6}) demo_parse demo_state)) = False"
    and "Alert \<notin> set (events (run (demo_service {6}) demo_parse demo_state))"
    by blast+
  with zero two gen count show ?thesis
    by (simp add: demo_image_url)
qed


section \<open>Retry of one scene\<close>

text \<open>
  A retry on scene \<open>index\<close> of a shown script of the declared shape, whatever the
  service answers.
\<close>

lemma retryImage_scene:
  assumes sc: "script (state w) = Some sc" and shape: "is_ScriptData sc"
    and i: "index < length (paragraphs_of sc)"
  shows "fst (retryImage service index w) = Inr ()
    \<and> scene_field (state (snd (retryImage service index w))) index ''imageUrl''
        = (case service (length (calls (events w))) (scene_request (paragraphs_of sc ! index)) of
             Inl e \<Rightarrow> scene_field (state w) index ''imageUrl''
           | Inr resp \<Rightarrow> Some (JStr (image_url resp)))
    \<and> scene_field (state (snd (retryImage service index w))) index ''isGenerating''
        = Some (JBool False)
    \<and> (\<forall>j k. j \<noteq> index \<longrightarrow>
          scene_field (state (snd (retryImage service index w))) j k = scene_field (state w) j k)
    \<and> calls (events (snd (retryImage service index w)))
        = calls (events w) @ [scene_request (paragraphs_of sc ! index)]"
proof -
  let ?ps = "paragraphs_of sc"
  let ?out = "service (length (calls (events w))) (scene_request (?ps ! index))"
  from is_ScriptData_object [OF shape] obtain kvs props where
    obj: "sc = JObj kvs" and par: "map_of kvs ''paragraphs'' = Some (JArr ?ps props)"
    and items: "list_all is_ParagraphItem ?ps"
    by blast
  from items i have item: "is_ParagraphItem (?ps ! index)"
    by (simp add: list_all_length)
  from good_scene_object [OF is_ParagraphItem_good [OF item]] obtain skvs t where
    scene: "?ps ! index = JObj skvs" and t: "ToString (map_of skvs ''imagePrompt'') = Inr t"
    by blast
  from image_step_good [OF i scene t, of service sc w]
  obtain w' where step: "image_step service sc index ?ps w
        = (Inr (?ps[index := scene_done (?ps ! index) ?out]), w')"
    and st: "state w' = (state w)\<lparr>script :=
            Some (with_paragraphs sc (?ps[index := scene_done (?ps ! index) ?out]))\<rparr>"
    and c: "calls (events w') = calls (events w) @ [scene_request (?ps ! index)]"
    by blast
  have retry: "retryImage service index w = (Inr (), w')"
    using sc obj par step by (simp add: retryImage_eq)
  have after: "scenes_of (state w') = ?ps[index := scene_done (?ps ! index) ?out]"
    by (simp add: st scenes_of_def paragraphs_of_with_paragraphs)
  have before: "scenes_of (state w) = ?ps"
    by (simp add: sc scenes_of_def)
  have url: "scene_field (state w') index ''imageUrl''
        = (case ?out of
             Inl e \<Rightarrow> scene_field (state w) index ''imageUrl''
           | Inr resp \<Rightarrow> Some (JStr (image_url resp)))"
    using i scene_done_fields(1) [OF item, of ?out]
    by (simp add: scene_field_def after before at_index_def split: sum.splits)
  have gen: "scene_field (state w') index ''isGenerating'' = Some (JBool False)"
    using i scene_done_fields(2) [OF item, of ?out]
    by (simp add: scene_field_def after at_index_def)
  have others: "\<forall>j k. j \<noteq> index \<longrightarrow> scene_field (state w') j k = scene_field (state w) j k"
    by (simp add: scene_field_def after before at_index_def)
  from retry url gen others c show ?thesis by simp
qed

text \<open>
  Claim C2 says that a retry overwrites the \<^verbatim>\<open>imageUrl\<close> of a scene only when the
  image generation succeeds, and leaves the stored one intact when it fails. On a
  response without inline image data \<^verbatim>\<open>generateImage\<close> yields no image: it
  returns the empty string, without throwing. The retry of a scene with a stored URL then
  settles normally, logs nothing, and the scene's \<^verbatim>\<open>imageUrl\<close> is the empty string:
  the stored URL is gone.
\<close>

theorem retry_silent_overwrite_counterexample:
  "scene_field (state shown_world) 0 ''imageUrl'' = Some (JStr ''data:image/png;base64,T0xE'')
   \<and> fst (generateImage (\<lambda>n req. Inr (text_response ''no image'')) (Some (JStr ''p0''))
            shown_world) = Inr ''''
   \<and> fst (retryImage (\<lambda>n req. Inr (text_response ''no image'')) 0 shown_world) = Inr ()
   \<and> scene_field (state (snd (retryImage (\<lambda>n req. Inr (text_response ''no image'')) 0
            shown_world))) 0 ''imageUrl'' = Some (JStr '''')
   \<and> ConsoleError \<notin> set (events (snd (retryImage (\<lambda>n req. Inr (text_response ''no image'')) 0
            shown_world)))"
  by (simp add: retryImage_def image_attempt_def generateImage_eq image_url_def
      first_candidate_def text_response_def ToString_def updateState_def Let_def at_index_def
      scene_field_def scenes_of_def paragraphs_of_def with_paragraphs_def shown_world_def
      shown_script_def)

text \<open>
  Claim C2, amended. A retry on scene \<open>index\<close> of a shown script (of the declared
  shape) settles normally after one image request. When that request is rejected the
  scene's \<^verbatim>\<open>imageUrl\<close> is what it was before, the URL stored earlier or none. When
  it is answered the scene's \<^verbatim>\<open>imageUrl\<close> is overwritten with what
  \<^verbatim>\<open>generateImage\<close> returns for the response, and that is the empty string exactly
  when no part of the response has inline data. Either way \<^verbatim>\<open>isGenerating\<close> ends
  false and no other scene changes.
\<close>

theorem retry_overwrites_when_answered:
  assumes sc: "script (state w) = Some sc" and shape: "is_ScriptData sc"
    and i: "index < length (paragraphs_of sc)"
  shows "fst (retryImage service index w) = Inr ()
    \<and> scene_field (state (snd (retryImage service index w))) index ''imageUrl''
        = (case service (length (calls (events w))) (scene_request (paragraphs_of sc ! index)) of
             Inl e \<Rightarrow> scene_field (state w) index ''imageUrl''
           | Inr resp \<Rightarrow> Some (JStr (image_url resp)))
    \<and> (\<forall>resp. service (length (calls (events w))) (scene_request (paragraphs_of sc ! index))
                 = Inr resp \<longrightarrow>
          (scene_field (state (snd (retryImage service index w))) index ''imageUrl''
             = Some (JStr ''''))
          = list_all (\<lambda>p. inlineData p = None) (content_parts resp))
    \<and> scene_field (state (snd (retryImage service index w))) index ''isGenerating''
        = Some (JBool False)
    \<and> (\<forall>j k. j \<noteq> index \<longrightarrow>
          scene_field (state (snd (retryImage service index w))) j k = scene_field (state w) j k)
    \<and> calls (events (snd (retryImage service index w)))
        = calls (events w) @ [scene_request (paragraphs_of sc ! index)]"
  using retryImage_scene [OF sc shape i, of service]
  by (simp add: image_url_empty)

theorem retry_overwrites_when_answered_witness:
  "scene_field (state shown_world) 0 ''imageUrl'' = Some (JStr ''data:image/png;base64,T0xE'')
   \<and> scene_field (state (snd (retryImage (demo_service {0}) 0 shown_world))) 0 ''imageUrl''
       = Some (JStr ''data:image/png;base64,T0xE'')
   \<and> scene_field (state (snd (retryImage (\<lambda>n req. Inr (image_response ''TkVX'')) 0 shown_world)))
         0 ''imageUrl''
       = Some (JStr ''data:image/png;base64,TkVX'')
   \<and> list_all (\<lambda>p. inlineData p = None) (content_parts (text_response ''no image''))
   \<and> scene_field (state (snd (retryImage (\<lambda>n req. Inr (text_response ''no image'')) 0 shown_world)))
         0 ''imageUrl''
       = Some (JStr '''')
   \<and> scene_field (state (snd (retryImage (demo_service {0}) 0 shown_world))) 0 ''isGenerating''
       = Some (JBool False)"
proof -
  have sc: "script (state shown_world) = Some shown_script"
    by (simp add: shown_world_def)
  have shape: "is_ScriptData shown_script"
    by (simp add: shown_script_def is_string_def is_number_def is_optional_string_def
        is_optional_boolean_def)
  have i: "0 < length (paragraphs_of shown_script)"
    by (simp add: shown_script_def paragraphs_of_def)
  have before: "scene_field (state shown_world) 0 ''imageUrl''
      = Some (JStr ''data:image/png;base64,T0xE'')"
    by (simp add: scene_field_def scenes_of_def paragraphs_of_def at_index_def shown_world_def
        shown_script_def)
  have none: "calls (events shown_world) = []"
    by (simp add: shown_world_def)
  have bare: "list_all (\<lambda>p. inlineData p = None) (content_parts (text_response ''no image''))"
    by (simp add: content_parts_def text_response_def first_candidate_def)
  note rejected = retry_overwrites_when_answered [OF sc shape i, of "demo_service {0}"]
  note answered = retry_overwrites_when_answered [OF sc shape i,
      of "\<lambda>n req. Inr (image_response ''TkVX'')"]
  have "(scene_field (state (snd (retryImage (\<lambda>n req. Inr (text_response ''no image'')) 0
            shown_world))) 0 ''imageUrl'' = Some (JStr ''''))
      = list_all (\<lambda>p. inlineData p = None) (content_parts (text_response ''no image''))"
    by (rule retry_overwrites_when_answered [OF sc shape i,
          of "\<lambda>n req. Inr (text_response ''no image'')",
          THEN conjunct2, THEN conjunct2, THEN conjunct1, rule_format]) simp
  with bare have silent: "scene_field (state (snd (retryImage
      (\<lambda>n req. Inr (text_response ''no image'')) 0 shown_world))) 0 ''imageUrl''
      = Some (JStr '''')"
    by simp
  from rejected answered before bare silent show ?thesis
    by (simp add: none demo_service_def demo_image_url)
qed

section \<open>The demo run, evaluated\<close>

text \<open>
  The run in which every request is answered ends without alert; the run whose script
  request is rejected publishes two stages and stops in the four single calls after two
  requests; on the script without scene array the four single calls go through and the
  run alerts.
\<close>

lemma demo_run_completes:
  "Alert \<notin> set (events (run (demo_service {}) demo_parse demo_state))"
  by (simp add: run_def startWorkflow_def try_body_def top_stages_def images_stage_def
      images_loop.simps image_step_def image_attempt_def performResearch_eq generateScript_eq
      generateMetadata_eq generateThumbnailContent_eq thumbnail_from_text_eq generateImage_eq
      parse_text_def or_else_def updateState_def console_error_def Let_def at_index_def
      ToString_def calls_append demo_defs)

lemma demo_run_aborted:
  "stage_updates (events (run (demo_service {1}) demo_parse demo_state)) = [RESEARCH, SCRIPT]"
  by (simp add: run_def startWorkflow_def try_body_def top_stages_def performResearch_eq
      generateScript_eq updateState_def console_error_def Let_def demo_service_def
      demo_state_def initialState_def)

lemma demo_failed_script:
  "top_stages (demo_service {1}) demo_parse (topic demo_state) (length' demo_state)
      (updateState [IsProcessing True, CurrentStep RESEARCH] \<lparr>state = demo_state, events = []\<rparr>)
   = (Inl (Rejected ''unavailable''),
      snd (top_stages (demo_service {1}) demo_parse (topic demo_state) (length' demo_state)
        (updateState [IsProcessing True, CurrentStep RESEARCH]
           \<lparr>state = demo_state, events = []\<rparr>)))"
  "map operation_of (calls (events
      (snd (top_stages (demo_service {1}) demo_parse (topic demo_state) (length' demo_state)
        (updateState [IsProcessing True, CurrentStep RESEARCH]
           \<lparr>state = demo_state, events = []\<rparr>)))))
   = [ResearchCall, ScriptCall]"
  by (simp_all add: top_stages_def performResearch_eq generateScript_eq updateState_def Let_def
      demo_service_def demo_state_def initialState_def calls_append)

lemma bare_top_stages:
  "top_stages (demo_service {}) bare_parse (topic demo_state) (length' demo_state)
      (updateState [IsProcessing True, CurrentStep RESEARCH] \<lparr>state = demo_state, events = []\<rparr>)
   = (Inr bare_script,
      snd (top_stages (demo_service {}) bare_parse (topic demo_state) (length' demo_state)
        (updateState [IsProcessing True, CurrentStep RESEARCH]
           \<lparr>state = demo_state, events = []\<rparr>)))"
  by (simp add: top_stages_def performResearch_eq generateScript_eq generateMetadata_eq
      generateThumbnailContent_eq thumbnail_from_text_eq parse_text_def or_else_def
      updateState_def Let_def ToString_def calls_append bare_parse_def bare_script_def
      demo_service_def demo_state_def initialState_def text_response_def research_response_def
      image_response_def)

lemma bare_run_alerts:
  "Alert \<in> set (events (run (demo_service {}) bare_parse demo_state))"
  by (simp add: run_def startWorkflow_def try_body_def top_stages_def images_stage_def
      performResearch_eq generateScript_eq generateMetadata_eq generateThumbnailContent_eq
      thumbnail_from_text_eq parse_text_def or_else_def updateState_def Let_def ToString_def
      calls_append bare_parse_def bare_script_def demo_service_def demo_state_def
      initialState_def text_response_def research_response_def image_response_def)

section \<open>The order of the calls and of the stages\<close>

text \<open>
  Claim C3. In a run with a non-empty topic the requests go out in the order research,
  script, metadata, thumbnail copy, thumbnail image, and then the images of the scenes:
  the operations of the requests sent are a prefix of that sequence, the research request
  is always sent, and a run that is not aborted (no alert) has sent the first five. When
  one of the four single calls fails, nothing is requested after it. When they succeed,
  on a script of the declared shape, the requests of the run are the five of the single
  calls followed by the image request of every scene, in the order of the scenes, whether
  these are answered or rejected: so the loop over the scenes runs, and a scene's image is
  requested only after the metadata and the thumbnail. A request is numbered by the
  requests sent before it, each of them settled: the run awaits one call before it makes
  the next.
\<close>

theorem calls_in_stage_order:
  assumes "topic s \<noteq> ''''"
  shows "prefix (map operation_of (calls (events (run service parse s))))
          ([ResearchCall, ScriptCall, MetadataCall, ThumbnailCall, ImageCall]
           @ replicate (length (calls (events (run service parse s)))) ImageCall)
     \<and> calls (events (run service parse s)) \<noteq> []
     \<and> (Alert \<notin> set (events (run service parse s)) \<longrightarrow>
           prefix [ResearchCall, ScriptCall, MetadataCall, ThumbnailCall, ImageCall]
             (map operation_of (calls (events (run service parse s)))))
     \<and> (\<forall>e w. top_stages service parse (topic s) (length' s)
                 (updateState [IsProcessing True, CurrentStep RESEARCH]
                    \<lparr>state = s, events = []\<rparr>) = (Inl e, w) \<longrightarrow>
           calls (events (run service parse s)) = calls (events w)
           \<and> prefix (map operation_of (calls (events w)))
                [ResearchCall, ScriptCall, MetadataCall, ThumbnailCall, ImageCall])
     \<and> (\<forall>scriptData w. top_stages service parse (topic s) (length' s)
                 (updateState [IsProcessing True, CurrentStep RESEARCH]
                    \<lparr>state = s, events = []\<rparr>) = (Inr scriptData, w)
             \<and> is_ScriptData scriptData \<longrightarrow>
           map operation_of (calls (events w))
             = [ResearchCall, ScriptCall, MetadataCall, ThumbnailCall, ImageCall]
           \<and> calls (events (run service parse s))
               = calls (events w) @ map scene_request (paragraphs_of scriptData))"
proof (intro conjI allI impI)
  from startWorkflow_effects [of "\<lparr>state = s, events = []\<rparr>" service parse] assms
  show "prefix (map operation_of (calls (events (run service parse s))))
          ([ResearchCall, ScriptCall, MetadataCall, ThumbnailCall, ImageCall]
           @ replicate (length (calls (events (run service parse s)))) ImageCall)"
    and "calls (events (run service parse s)) \<noteq> []"
    by (auto simp: run_def)
next
  assume "Alert \<notin> set (events (run service parse s))"
  with startWorkflow_effects [of "\<lparr>state = s, events = []\<rparr>" service parse] assms
  show "prefix [ResearchCall, ScriptCall, MetadataCall, ThumbnailCall, ImageCall]
             (map operation_of (calls (events (run service parse s))))"
    by (auto simp: run_def)
next
  fix e w
  assume top: "top_stages service parse (topic s) (length' s)
                 (updateState [IsProcessing True, CurrentStep RESEARCH]
                    \<lparr>state = s, events = []\<rparr>) = (Inl e, w)"
  from run_after_top_stages(1) [OF assms top] run_after_top_stages(2) [OF assms top]
  show "calls (events (run service parse s)) = calls (events w)"
    and "prefix (map operation_of (calls (events w)))
                [ResearchCall, ScriptCall, MetadataCall, ThumbnailCall, ImageCall]"
    by (auto simp: calls_append)
next
  fix scriptData w
  assume h: "top_stages service parse (topic s) (length' s)
                 (updateState [IsProcessing True, CurrentStep RESEARCH]
                    \<lparr>state = s, events = []\<rparr>) = (Inr scriptData, w)
             \<and> is_ScriptData scriptData"
  then have top: "top_stages service parse (topic s) (length' s)
                 (updateState [IsProcessing True, CurrentStep RESEARCH]
                    \<lparr>state = s, events = []\<rparr>) = (Inr scriptData, w)"
    and shape: "is_ScriptData scriptData"
    by simp_all
  from run_after_top_stages(1) [OF assms top]
  show "map operation_of (calls (events w))
             = [ResearchCall, ScriptCall, MetadataCall, ThumbnailCall, ImageCall]"
    by auto
  from images_stage_good [OF shape, of service w] obtain ps' w' where
    img: "images_stage service scriptData w = (Inr ps', w')"
    and c: "calls (events w') = calls (events w) @ map scene_request (paragraphs_of scriptData)"
    by blast
  from run_after_top_stages(3) [OF assms top] img
  have "events (run service parse s) = events w' @ [SetState [IsProcessing False]]"
    by simp
  with c show "calls (events (run service parse s))
               = calls (events w) @ map scene_request (paragraphs_of scriptData)"
    by (simp add: calls_append)
qed

theorem calls_in_stage_order_witness:
  "topic demo_state \<noteq> ''''
   \<and> is_ScriptData demo_script
   \<and> map operation_of (calls (events (run (demo_service {6}) demo_parse demo_state)))
       = [ResearchCall, ScriptCall, MetadataCall, ThumbnailCall, ImageCall,
          ImageCall, ImageCall, ImageCall]
   \<and> drop 5 (calls (events (run (demo_service {6}) demo_parse demo_state)))
       = [image_request ''p0'', image_request ''p1'', image_request ''p2'']
   \<and> map operation_of (calls (events (run (demo_service {1}) demo_parse demo_state)))
       = [ResearchCall, ScriptCall]
   \<and> Alert \<notin> set (events (run (demo_service {}) demo_parse demo_state))
   \<and> prefix [ResearchCall, ScriptCall, MetadataCall, ThumbnailCall, ImageCall]
        (map operation_of (calls (events (run (demo_service {}) demo_parse demo_state))))"
proof -
  let ?w0 = "updateState [IsProcessing True, CurrentStep RESEARCH]
               \<lparr>state = demo_state, events = []\<rparr>"
  define w where
    "w = snd (top_stages (demo_service {6}) demo_parse (topic demo_state) (length' demo_state) ?w0)"
  define w1 where
    "w1 = snd (top_stages (demo_service {1}) demo_parse (topic demo_state) (length' demo_state) ?w0)"
  have t: "topic demo_state \<noteq> ''''"
    by (simp add: demo_state_def)
  have reach: "top_stages (demo_service {6}) demo_parse (topic demo_state) (length' demo_state) ?w0
        = (Inr demo_script, w)
      \<and> is_ScriptData demo_script"
    using demo_top_stages [of 6]
    by (simp add: w_def prod_eq_iff demo_state_def demo_world_def initialState_def
        demo_script_shape)
  have stop: "top_stages (demo_service {1}) demo_parse (topic demo_state) (length' demo_state) ?w0
        = (Inl (Rejected ''unavailable''), w1)"
    unfolding w1_def by (rule demo_failed_script(1))
  have ops1: "map operation_of (calls (events w1)) = [ResearchCall, ScriptCall]"
    unfolding w1_def by (rule demo_failed_script(2))
  note loop = calls_in_stage_order [OF t, of "demo_service {6}" demo_parse,
      THEN conjunct2, THEN conjunct2, THEN conjunct2, THEN conjunct2, rule_format, OF reach]
  note failed = calls_in_stage_order [OF t, of "demo_service {1}" demo_parse,
      THEN conjunct2, THEN conjunct2, THEN conjunct2, THEN conjunct1, rule_format, OF stop]
  note complete = calls_in_stage_order [OF t, of "demo_service {}" demo_parse,
      THEN conjunct2, THEN conjunct2, THEN conjunct1, rule_format, OF demo_run_completes]
  from loop have five: "map operation_of (calls (events w))
      = [ResearchCall, ScriptCall, MetadataCall, ThumbnailCall, ImageCall]"
    and all: "calls (events (run (demo_service {6}) demo_parse demo_state))
      = calls (events w) @ map scene_request (paragraphs_of demo_script)"
    by simp_all
  from five have "length (map operation_of (calls (events w))) = 5"
    by simp
  then have n: "length (calls (events w)) = 5"
    by simp
  have scenes: "map scene_request (paragraphs_of demo_script)
      = [image_request ''p0'', image_request ''p1'', image_request ''p2'']"
    by (simp add: demo_script_shape demo_scene_def scene_request_def ToString_def)
  have a: "map operation_of (calls (events (run (demo_service {6}) demo_parse demo_state)))
       = [ResearchCall, ScriptCall, MetadataCall, ThumbnailCall, ImageCall,
          ImageCall, ImageCall, ImageCall]"
    unfolding all scenes by (simp add: five)
  have b: "drop 5 (calls (events (run (demo_service {6}) demo_parse demo_state)))
       = [image_request ''p0'', image_request ''p1'', image_request ''p2'']"
    unfolding all scenes by (simp add: n)
  from failed ops1
  have c: "map operation_of (calls (events (run (demo_service {1}) demo_parse demo_state)))
       = [ResearchCall, ScriptCall]"
    by simp
  from t reach a b c demo_run_completes complete show ?thesis
    by simp
qed

text \<open>
  Claim C4 says that the stages published only go forward in the order INPUT, RESEARCH,
  SCRIPT, IMAGES, METADATA, THUMBNAIL. In the run where every request is answered the
  stages published are RESEARCH, SCRIPT, METADATA, THUMBNAIL, IMAGES: the last update goes
  back from THUMBNAIL to IMAGES.
\<close>

theorem stages_forward_counterexample:
  "stage_updates (events (run (demo_service {}) demo_parse demo_state))
     = [RESEARCH, SCRIPT, METADATA, THUMBNAIL, IMAGES]
   \<and> \<not> forward_only (stage_updates (events (run (demo_service {}) demo_parse demo_state)))"
proof -
  have a: "stage_updates (events (run (demo_service {}) demo_parse demo_state))
      = [RESEARCH, SCRIPT, METADATA, THUMBNAIL, IMAGES]"
    by (simp add: run_def startWorkflow_def try_body_def top_stages_def images_stage_def
        images_loop.simps image_step_def image_attempt_def performResearch_eq generateScript_eq
        generateMetadata_eq generateThumbnailContent_eq thumbnail_from_text_eq generateImage_eq
        parse_text_def or_else_def updateState_def console_error_def Let_def at_index_def
        ToString_def calls_append demo_defs)
  show ?thesis
    unfolding a by (simp add: forward_only_def)
qed

text \<open>
  Claim C4, amended. In a run with a non-empty topic the stages published are, in order,
  a prefix of RESEARCH, SCRIPT, METADATA, THUMBNAIL, IMAGES, starting with RESEARCH. They
  are all five when the four single calls succeed, whatever the image stage then does
  (so also in every run without alert); when one of the four fails, IMAGES is not
  published and the stages published go forward. The stages go forward in the order of
  the enumeration exactly as long as the image stage is not reached: the update to
  IMAGES, after THUMBNAIL, goes back.
\<close>

theorem stages_follow_call_order:
  assumes "topic s \<noteq> ''''"
  shows "prefix (stage_updates (events (run service parse s)))
          [RESEARCH, SCRIPT, METADATA, THUMBNAIL, IMAGES]
     \<and> stage_updates (events (run service parse s)) \<noteq> []
     \<and> (Alert \<notin> set (events (run service parse s)) \<longrightarrow>
           stage_updates (events (run service parse s))
             = [RESEARCH, SCRIPT, METADATA, THUMBNAIL, IMAGES])
     \<and> forward_only (stage_updates (events (run service parse s)))
         = (IMAGES \<notin> set (stage_updates (events (run service parse s))))
     \<and> (\<forall>scriptData w. top_stages service parse (topic s) (length' s)
                 (updateState [IsProcessing True, CurrentStep RESEARCH]
                    \<lparr>state = s, events = []\<rparr>) = (Inr scriptData, w) \<longrightarrow>
           stage_updates (events (run service parse s))
             = [RESEARCH, SCRIPT, METADATA, THUMBNAIL, IMAGES])
     \<and> (\<forall>e w. top_stages service parse (topic s) (length' s)
                 (updateState [IsProcessing True, CurrentStep RESEARCH]
                    \<lparr>state = s, events = []\<rparr>) = (Inl e, w) \<longrightarrow>
           IMAGES \<notin> set (stage_updates (events (run service parse s)))
           \<and> forward_only (stage_updates (events (run service parse s))))"
proof -
  from startWorkflow_effects [of "\<lparr>state = s, events = []\<rparr>" service parse] assms
  have p: "prefix (stage_updates (events (run service parse s)))
          [RESEARCH, SCRIPT, METADATA, THUMBNAIL, IMAGES]"
    and n: "stage_updates (events (run service parse s)) \<noteq> []"
    and ok: "Alert \<notin> set (events (run service parse s)) \<longrightarrow>
           stage_updates (events (run service parse s))
             = [RESEARCH, SCRIPT, METADATA, THUMBNAIL, IMAGES]"
    by (auto simp: run_def)
  from p have f: "forward_only (stage_updates (events (run service parse s)))
         = (IMAGES \<notin> set (stage_updates (events (run service parse s))))"
    by (auto simp: prefix_Cons forward_only_def)
  have succeed: "stage_updates (events (run service parse s))
             = [RESEARCH, SCRIPT, METADATA, THUMBNAIL, IMAGES]"
    if top: "top_stages service parse (topic s) (length' s)
                 (updateState [IsProcessing True, CurrentStep RESEARCH]
                    \<lparr>state = s, events = []\<rparr>) = (Inr scriptData, w)"
    for scriptData w
    using run_after_top_stages(1) [OF assms top] run_after_top_stages(3) [OF assms top]
    by auto
  have fail: "IMAGES \<notin> set (stage_updates (events (run service parse s)))"
    if top: "top_stages service parse (topic s) (length' s)
                 (updateState [IsProcessing True, CurrentStep RESEARCH]
                    \<lparr>state = s, events = []\<rparr>) = (Inl e, w)"
    for e w
    using run_after_top_stages(1) [OF assms top] run_after_top_stages(2) [OF assms top]
    by (auto simp: stage_updates_append prefix_Cons)
  from p n ok f succeed fail show ?thesis
    by simp
qed

theorem stages_follow_call_order_witness:
  "topic demo_state \<noteq> ''''
   \<and> Alert \<notin> set (events (run (demo_service {}) demo_parse demo_state))
   \<and> stage_updates (events (run (demo_service {}) demo_parse demo_state))
       = [RESEARCH, SCRIPT, METADATA, THUMBNAIL, IMAGES]
   \<and> Alert \<in> set (events (run (demo_service {}) bare_parse demo_state))
   \<and> stage_updates (events (run (demo_service {}) bare_parse demo_state))
       = [RESEARCH, SCRIPT, METADATA, THUMBNAIL, IMAGES]
   \<and> stage_updates (events (run (demo_service {1}) demo_parse demo_state)) = [RESEARCH, SCRIPT]
   \<and> IMAGES \<notin> set (stage_updates (events (run (demo_service {1}) demo_parse demo_state)))
   \<and> forward_only (stage_updates (events (run (demo_service {1}) demo_parse demo_state)))"
proof -
  have t: "topic demo_state \<noteq> ''''"
    by (simp add: demo_state_def)
  note complete = stages_follow_call_order [OF t, of "demo_service {}" demo_parse,
      THEN conjunct2, THEN conjunct2, THEN conjunct1, rule_format, OF demo_run_completes]
  note bare = stages_follow_call_order [OF t, of "demo_service {}" bare_parse,
      THEN conjunct2, THEN conjunct2, THEN conjunct2, THEN conjunct2, THEN conjunct1,
      rule_format, OF bare_top_stages]
  note failed = stages_follow_call_order [OF t, of "demo_service {1}" demo_parse,
      THEN conjunct2, THEN conjunct2, THEN conjunct2, THEN conjunct2, THEN conjunct2,
      rule_format, OF demo_failed_script(1)]
  from t complete bare failed demo_run_completes bare_run_alerts demo_run_aborted
  show ?thesis
    by simp
qed

section \<open>The thumbnail\<close>

text \<open>
  Claim C5. When the request for the thumbnail copy is rejected,
  \<^verbatim>\<open>generateThumbnailContent\<close> fails with that one request sent. Whenever it sends
  an image request, that request is the second of two, after the copy request was
  answered and its text parsed. And in a run that reaches the thumbnail stage and has the
  copy request rejected, the state's thumbnail is what it was at the start (unset in a
  first run), the four requests up to the copy request are all that were sent, and the
  run is aborted with \<^verbatim>\<open>isProcessing\<close> false.
\<close>

theorem thumbnail_image_needs_copy:
  "(\<forall>e. service (length (calls (events w))) (thumbnail_request t) = Inl e \<longrightarrow>
      generateThumbnailContent service parse (Some (JStr t)) w
      = (Inl e, w\<lparr>events := events w @ [Called (thumbnail_request t)]\<rparr>))
   \<and> (\<forall>r w'. generateThumbnailContent service parse v w = (r, w') \<longrightarrow>
        (\<exists>es. events w' = events w @ es
           \<and> (ImageCall \<in> set (map operation_of (calls es)) \<longrightarrow>
                map operation_of (calls es) = [ThumbnailCall, ImageCall]
                \<and> (\<exists>script_text textResponse textData.
                      v = Some (JStr script_text)
                      \<and> service (length (calls (events w))) (thumbnail_request script_text)
                          = Inr textResponse
                      \<and> parse_text parse textResponse = Inr textData))))
   \<and> (\<forall>researchResponse scriptResponse scriptData tts metadataResponse metadata_value e.
        topic s \<noteq> ''''
        \<and> service 0 (research_request (topic s)) = Inr researchResponse
        \<and> service 1 (script_request (or_else (response_text researchResponse) '''') (length' s)) = Inr scriptResponse
        \<and> parse_text parse scriptResponse = Inr scriptData
        \<and> get_prop (Some scriptData) ''ttsScript'' = Inr (Some (JStr tts))
        \<and> service 2 (metadata_request tts) = Inr metadataResponse
        \<and> parse_text parse metadataResponse = Inr metadata_value
        \<and> service 3 (thumbnail_request tts) = Inl e \<longrightarrow>
        thumbnail (state (run service parse s)) = thumbnail s
        \<and> calls (events (run service parse s))
            = [research_request (topic s),
               script_request (or_else (response_text researchResponse) '''') (length' s),
               metadata_request tts, thumbnail_request tts]
        \<and> Alert \<in> set (events (run service parse s))
        \<and> isProcessing (state (run service parse s)) = False)"
proof (intro conjI allI impI)
  fix e
  assume "service (length (calls (events w))) (thumbnail_request t) = Inl e"
  then show "generateThumbnailContent service parse (Some (JStr t)) w
      = (Inl e, w\<lparr>events := events w @ [Called (thumbnail_request t)]\<rparr>)"
    by (simp add: generateThumbnailContent_eq)
next
  fix r w'
  assume run: "generateThumbnailContent service parse v w = (r, w')"
  show "\<exists>es. events w' = events w @ es
           \<and> (ImageCall \<in> set (map operation_of (calls es)) \<longrightarrow>
                map operation_of (calls es) = [ThumbnailCall, ImageCall]
                \<and> (\<exists>script_text textResponse textData.
                      v = Some (JStr script_text)
                      \<and> service (length (calls (events w))) (thumbnail_request script_text)
                          = Inr textResponse
                      \<and> parse_text parse textResponse = Inr textData))"
  proof (cases "is_string v")
    case False
    with run show ?thesis
      by (auto simp: generateThumbnailContent_not_string)
  next
    case True
    then obtain t where v: "v = Some (JStr t)"
      by (auto simp: is_string_def split: option.splits json.splits)
    from run show ?thesis
      unfolding v
      by (auto simp: generateThumbnailContent_eq thumbnail_from_text_eq split: sum.splits)
  qed
next
  fix researchResponse scriptResponse scriptData tts metadataResponse metadata_value e
  assume h: "topic s \<noteq> ''''
        \<and> service 0 (research_request (topic s)) = Inr researchResponse
        \<and> service 1 (script_request (or_else (response_text researchResponse) '''') (length' s)) = Inr scriptResponse
        \<and> parse_text parse scriptResponse = Inr scriptData
        \<and> get_prop (Some scriptData) ''ttsScript'' = Inr (Some (JStr tts))
        \<and> service 2 (metadata_request tts) = Inr metadataResponse
        \<and> parse_text parse metadataResponse = Inr metadata_value
        \<and> service 3 (thumbnail_request tts) = Inl e"
  then have "run service parse s =
      \<lparr>state = s\<lparr>isProcessing := False, currentStep := THUMBNAIL,
           research := Some \<lparr>report = or_else (response_text researchResponse) '''', sources = grounding_sources researchResponse\<rparr>,
           script := Some scriptData, metadata := Some metadata_value\<rparr>,
       events = [SetState [IsProcessing True, CurrentStep RESEARCH],
                 Called (research_request (topic s)),
                 SetState [Research \<lparr>report = or_else (response_text researchResponse) '''', sources = grounding_sources researchResponse\<rparr>],
                 SetState [CurrentStep SCRIPT],
                 Called (script_request (or_else (response_text researchResponse) '''') (length' s)),
                 SetState [Script scriptData],
                 SetState [CurrentStep METADATA],
                 Called (metadata_request tts),
                 SetState [Metadata metadata_value],
                 SetState [CurrentStep THUMBNAIL],
                 Called (thumbnail_request tts),
                 ConsoleError, Alert, SetState [IsProcessing False]]\<rparr>"
    by (simp add: run_def startWorkflow_def try_body_def top_stages_def performResearch_eq
        generateScript_eq generateMetadata_eq generateThumbnailContent_eq updateState_def Let_def
        numeral_2_eq_2 numeral_3_eq_3)
  then show "thumbnail (state (run service parse s)) = thumbnail s"
    and "calls (events (run service parse s))
            = [research_request (topic s),
               script_request (or_else (response_text researchResponse) '''') (length' s),
               metadata_request tts, thumbnail_request tts]"
    and "Alert \<in> set (events (run service parse s))"
    and "isProcessing (state (run service parse s)) = False"
    by simp_all
qed

theorem thumbnail_image_needs_copy_witness:
  "demo_service {3} (length (calls (events before_thumbnail))) (thumbnail_request ''tts'')
     = Inl (Rejected ''unavailable'')
   \<and> generateThumbnailContent (demo_service {3}) demo_parse (Some (JStr ''tts'')) before_thumbnail
       = (Inl (Rejected ''unavailable''),
          before_thumbnail\<lparr>events := events before_thumbnail @ [Called (thumbnail_request ''tts'')]\<rparr>)
   \<and> map operation_of (calls (events (snd (generateThumbnailContent (demo_service {}) demo_parse
          (Some (JStr ''tts'')) before_thumbnail))))
       = [ResearchCall, ScriptCall, MetadataCall, ThumbnailCall, ImageCall]
   \<and> (\<exists>textResponse textData.
          demo_service {} 3 (thumbnail_request ''tts'') = Inr textResponse
          \<and> parse_text demo_parse textResponse = Inr textData)
   \<and> thumbnail (state (run (demo_service {3}) demo_parse demo_state)) = None
   \<and> map operation_of (calls (events (run (demo_service {3}) demo_parse demo_state)))
       = [ResearchCall, ScriptCall, MetadataCall, ThumbnailCall]
   \<and> Alert \<in> set (events (run (demo_service {3}) demo_parse demo_state))"
proof -
  note th = thumbnail_image_needs_copy [where service = "demo_service {3}" and parse = demo_parse
      and w = before_thumbnail and t = "''tts''" and s = demo_state]
  have a: "demo_service {3} (length (calls (events before_thumbnail))) (thumbnail_request ''tts'')
      = Inl (Rejected ''unavailable'')"
    by (simp add: before_thumbnail_def demo_service_def)
  note first = th [THEN conjunct1, rule_format, OF a]
  have h: "topic demo_state \<noteq> ''''
        \<and> demo_service {3} 0 (research_request (topic demo_state)) = Inr research_response
        \<and> demo_service {3} 1
            (script_request (or_else (response_text research_response) '''') (length' demo_state))
            = Inr (text_response demo_script_text)
        \<and> parse_text demo_parse (text_response demo_script_text) = Inr demo_script
        \<and> get_prop (Some demo_script) ''ttsScript'' = Inr (Some (JStr ''tts''))
        \<and> demo_service {3} 2 (metadata_request ''tts'') = Inr (text_response demo_metadata_text)
        \<and> parse_text demo_parse (text_response demo_metadata_text) = Inr demo_metadata
        \<and> demo_service {3} 3 (thumbnail_request ''tts'') = Inl (Rejected ''unavailable'')"
    by (simp add: demo_parse_texts demo_script_shape demo_service_def demo_state_def)
  note whole = th [THEN conjunct2, THEN conjunct2, rule_format, OF h]
  let ?made = "generateThumbnailContent (demo_service {}) demo_parse (Some (JStr ''tts''))
      before_thumbnail"
  have ev: "events (snd ?made)
      = events before_thumbnail
        @ [Called (thumbnail_request ''tts''), Called (image_request (thumbnail_image_prompt ''bg''))]"
    by (simp add: generateThumbnailContent_eq thumbnail_from_text_eq before_thumbnail_def
        demo_service_def demo_parse_texts demo_thumbnail_def ToString_def)
  have ops: "map operation_of (calls (events (snd ?made)))
      = [ResearchCall, ScriptCall, MetadataCall, ThumbnailCall, ImageCall]"
    unfolding ev by (simp add: before_thumbnail_def calls_append)
  have three: "length (calls (events before_thumbnail)) = 3"
    by (simp add: before_thumbnail_def)
  from thumbnail_image_needs_copy [where service = "demo_service {}" and parse = demo_parse
      and w = before_thumbnail and v = "Some (JStr ''tts'')", THEN conjunct2, THEN conjunct1,
      rule_format, of "fst ?made" "snd ?made"]
  obtain es where es: "events (snd ?made) = events before_thumbnail @ es"
    and dep: "ImageCall \<in> set (map operation_of (calls es)) \<longrightarrow>
        map operation_of (calls es) = [ThumbnailCall, ImageCall]
        \<and> (\<exists>script_text textResponse textData.
              Some (JStr ''tts'') = Some (JStr script_text)
              \<and> demo_service {} (length (calls (events before_thumbnail)))
                   (thumbnail_request script_text) = Inr textResponse
              \<and> parse_text demo_parse textResponse = Inr textData)"
    by auto
  from es ev have "es = [Called (thumbnail_request ''tts''),
      Called (image_request (thumbnail_image_prompt ''bg''))]"
    by simp
  then have "ImageCall \<in> set (map operation_of (calls es))"
    by simp
  with dep three have answered: "\<exists>textResponse textData.
      demo_service {} 3 (thumbnail_request ''tts'') = Inr textResponse
      \<and> parse_text demo_parse textResponse = Inr textData"
    by auto
  from a first whole ops answered show ?thesis
    by (simp add: demo_state_def initialState_def)
qed

text \<open>
  Claim C10. A thumbnail that \<^verbatim>\<open>generateThumbnailContent\<close> returns has no
  \<^verbatim>\<open>mockupImageUrl\<close>; its \<^verbatim>\<open>pureImageUrl\<close> is the URL made of the response to
  the image request, the second request, and its \<^verbatim>\<open>copySuggestions\<close> is the property
  of that name of the parsed answer to the first. No update of a run, and none of a
  retry, assigns a thumbnail with a \<^verbatim>\<open>mockupImageUrl\<close>.
\<close>

theorem mockup_never_written:
  "(\<forall>th w'. generateThumbnailContent service parse v w = (Inr th, w') \<longrightarrow>
      mockupImageUrl th = None
      \<and> (\<exists>script_text textResponse textData described described_text imageResponse.
            v = Some (JStr script_text)
            \<and> service (length (calls (events w))) (thumbnail_request script_text) = Inr textResponse
            \<and> parse_text parse textResponse = Inr textData
            \<and> get_prop (Some textData) ''imagePrompt'' = Inr described
            \<and> ToString described = Inr described_text
            \<and> service (Suc (length (calls (events w))))
                 (image_request (thumbnail_image_prompt described_text)) = Inr imageResponse
            \<and> pureImageUrl th = Some (image_url imageResponse)
            \<and> get_prop (Some textData) ''copySuggestions'' = Inr (copySuggestions th)))
   \<and> \<not> list_ex writes_mockup (events (run service parse s))
   \<and> (\<exists>es. events (snd (retryImage service index w)) = events w @ es
          \<and> \<not> list_ex writes_mockup es)"
proof (intro conjI allI impI)
  fix th w'
  assume ok: "generateThumbnailContent service parse v w = (Inr th, w')"
  then have "is_string v"
    by (rule contrapos_pp) (simp add: generateThumbnailContent_not_string)
  then obtain t where v: "v = Some (JStr t)"
    by (auto simp: is_string_def split: option.splits json.splits)
  from ok show "mockupImageUrl th = None"
    unfolding v
    by (auto simp: generateThumbnailContent_eq thumbnail_from_text_eq split: sum.splits)
  from ok show "\<exists>script_text textResponse textData described described_text imageResponse.
            v = Some (JStr script_text)
            \<and> service (length (calls (events w))) (thumbnail_request script_text) = Inr textResponse
            \<and> parse_text parse textResponse = Inr textData
            \<and> get_prop (Some textData) ''imagePrompt'' = Inr described
            \<and> ToString described = Inr described_text
            \<and> service (Suc (length (calls (events w))))
                 (image_request (thumbnail_image_prompt described_text)) = Inr imageResponse
            \<and> pureImageUrl th = Some (image_url imageResponse)
            \<and> get_prop (Some textData) ''copySuggestions'' = Inr (copySuggestions th)"
    unfolding v
    by (auto simp: generateThumbnailContent_eq thumbnail_from_text_eq calls_append
        split: sum.splits)
next
  show "\<not> list_ex writes_mockup (events (run service parse s))"
  proof (cases "topic s = ''''")
    case True
    then show ?thesis by (simp add: run_def startWorkflow_def)
  next
    case False
    with startWorkflow_effects [of "\<lparr>state = s, events = []\<rparr>" service parse]
    show ?thesis by (auto simp: run_def)
  qed
next
  obtain r w' where retry: "retryImage service index w = (r, w')"
    by (cases "retryImage service index w")
  from retryImage_effects [OF retry] loop_events_no_mockup
  show "\<exists>es. events (snd (retryImage service index w)) = events w @ es
          \<and> \<not> list_ex writes_mockup es"
    by (auto simp: retry)
qed

theorem mockup_never_written_witness:
  "fst (generateThumbnailContent (demo_service {}) demo_parse (Some (JStr ''tts'')) before_thumbnail)
     = Inr \<lparr>pureImageUrl = Some ''data:image/png;base64,QUJD'', mockupImageUrl = None,
            copySuggestions = Some demo_suggestions\<rparr>
   \<and> mockupImageUrl
        \<lparr>pureImageUrl = Some ''data:image/png;base64,QUJD'', mockupImageUrl = None,
         copySuggestions = Some demo_suggestions\<rparr> = None
   \<and> \<not> list_ex writes_mockup (events (run (demo_service {}) demo_parse demo_state))"
proof -
  let ?th = "\<lparr>pureImageUrl = Some ''data:image/png;base64,QUJD'', mockupImageUrl = None,
              copySuggestions = Some demo_suggestions\<rparr>"
  note th = mockup_never_written [where service = "demo_service {}" and parse = demo_parse
      and v = "Some (JStr ''tts'')" and w = before_thumbnail and s = demo_state]
  have a: "fst (generateThumbnailContent (demo_service {}) demo_parse (Some (JStr ''tts''))
      before_thumbnail) = Inr ?th"
    by (simp add: generateThumbnailContent_eq thumbnail_from_text_eq before_thumbnail_def
        demo_service_def demo_parse_texts demo_thumbnail_def ToString_def demo_image_url)
  then have b: "generateThumbnailContent (demo_service {}) demo_parse (Some (JStr ''tts''))
      before_thumbnail
      = (Inr ?th, snd (generateThumbnailContent (demo_service {}) demo_parse (Some (JStr ''tts''))
           before_thumbnail))"
    by (simp add: prod_eq_iff)
  note mine = th [THEN conjunct1, rule_format, OF b, THEN conjunct1]
  note none = th [THEN conjunct2, THEN conjunct1]
  from a mine none show ?thesis
    by simp
qed

section \<open>Failure of the script stage\<close>

text \<open>
  Claim C6. In a run whose research request is answered and whose script generation
  fails (the request is rejected, or the text of the response does not parse), the state
  ends as the state at the start with \<^verbatim>\<open>research\<close> set to the research result,
  \<^verbatim>\<open>currentStep\<close> at SCRIPT and \<^verbatim>\<open>isProcessing\<close> false: the research stays, and
  \<^verbatim>\<open>script\<close>, \<^verbatim>\<open>metadata\<close> and \<^verbatim>\<open>thumbnail\<close>, unset at the start, are still
  unset. The run is aborted with an alert after its second request.
\<close>

theorem script_failure_keeps_research:
  assumes topic: "topic s \<noteq> ''''"
    and research_ok: "service 0 (research_request (topic s)) = Inr researchResponse"
    and script_fails:
      "service 1 (script_request (or_else (response_text researchResponse) '''') (length' s)) = Inl e
       \<or> (\<exists>scriptResponse. service 1 (script_request (or_else (response_text researchResponse) '''') (length' s)) = Inr scriptResponse
              \<and> parse_text parse scriptResponse = Inl e)"
  shows "state (run service parse s)
      = s\<lparr>isProcessing := False, currentStep := SCRIPT,
           research := Some \<lparr>report = or_else (response_text researchResponse) '''',
                              sources = grounding_sources researchResponse\<rparr>\<rparr>
    \<and> (script s = None \<and> metadata s = None \<and> thumbnail s = None \<longrightarrow>
          script (state (run service parse s)) = None
          \<and> metadata (state (run service parse s)) = None
          \<and> thumbnail (state (run service parse s)) = None)
    \<and> research (state (run service parse s)) \<noteq> None
    \<and> isProcessing (state (run service parse s)) = False
    \<and> Alert \<in> set (events (run service parse s))
    \<and> calls (events (run service parse s))
        = [research_request (topic s),
           script_request (or_else (response_text researchResponse) '''') (length' s)]"
  using assms
  by (auto simp: run_def startWorkflow_def try_body_def top_stages_def performResearch_eq
      generateScript_eq updateState_def Let_def)

theorem script_failure_keeps_research_witness:
  "research (state (run (demo_service {1}) demo_parse demo_state))
     = Some \<lparr>report = ''report'',
             sources = [\<lparr>title = source_placeholder, uri = ''https://example.org''\<rparr>]\<rparr>
   \<and> script (state (run (demo_service {1}) demo_parse demo_state)) = None
   \<and> metadata (state (run (demo_service {1}) demo_parse demo_state)) = None
   \<and> thumbnail (state (run (demo_service {1}) demo_parse demo_state)) = None
   \<and> isProcessing (state (run (demo_service {1}) demo_parse demo_state)) = False
   \<and> Alert \<in> set (events (run (demo_service {1}) demo_parse demo_state))
   \<and> script (state (run (\<lambda>n req. if n = 0 then Inr research_response
                                   else Inr (text_response broken_text))
                         demo_parse demo_state)) = None"
proof -
  have t: "topic demo_state \<noteq> ''''"
    by (simp add: demo_state_def)
  have a: "demo_service {1} 0 (research_request (topic demo_state)) = Inr research_response"
    by (simp add: demo_service_def)
  have b: "demo_service {1} 1
        (script_request (or_else (response_text research_response) '''') (length' demo_state))
        = Inl (Rejected ''unavailable'')
      \<or> (\<exists>scriptResponse. demo_service {1} 1
            (script_request (or_else (response_text research_response) '''') (length' demo_state))
            = Inr scriptResponse
          \<and> parse_text demo_parse scriptResponse = Inl (Rejected ''unavailable''))"
    by (simp add: demo_service_def)
  note rejected = script_failure_keeps_research [OF t a b]
  let ?service = "\<lambda>n req. if n = (0::nat) then Inr research_response
                           else (Inr (text_response broken_text) :: error + response)"
  have a': "?service 0 (research_request (topic demo_state)) = Inr research_response"
    by simp
  have b': "?service 1
        (script_request (or_else (response_text research_response) '''') (length' demo_state))
        = Inl SyntaxError
      \<or> (\<exists>scriptResponse. ?service 1
            (script_request (or_else (response_text research_response) '''') (length' demo_state))
            = Inr scriptResponse
          \<and> parse_text demo_parse scriptResponse = Inl SyntaxError)"
    by (simp add: demo_parse_texts)
  note unparsed = script_failure_keeps_research [where service = ?service, OF t a' b']
  from rejected unparsed show ?thesis
    by (simp add: demo_state_def initialState_def research_response_def or_else_def
        grounding_sources_def first_candidate_def chunk_source_def)
qed

section \<open>Parsing the script\<close>

text \<open>
  Claim C7 says that script generation fails unless the response is valid JSON of the
  shape of \<^verbatim>\<open>ScriptData\<close>, and that a missing text yields no made-up result. On a
  response without text \<^verbatim>\<open>generateScript\<close> returns the empty object, and on the
  text \<^verbatim>\<open>[]\<close> it returns the empty array: neither has the shape, and neither fails.
\<close>

theorem script_empty_text_counterexample:
  "fst (generateScript (\<lambda>n req. Inr \<lparr>response_text = None, candidates = None\<rparr>) demo_parse
          ''report'' MEDIUM demo_world) = Inr (JObj [])
   \<and> \<not> is_ScriptData (JObj [])
   \<and> fst (generateScript (\<lambda>n req. Inr (text_response ''[]'')) demo_parse
          ''report'' MEDIUM demo_world) = Inr (JArr [] [])
   \<and> \<not> is_ScriptData (JArr [] [])"
  by (simp add: generateScript_eq parse_text_def or_else_def demo_parse_def text_response_def
      is_string_def)

text \<open>
  Claim C7, amended. \<^verbatim>\<open>JSON.parse\<close> turning the text \<^verbatim>\<open>{}\<close> into the empty
  object, \<^verbatim>\<open>generateScript\<close> fails with the service's error when the request is
  rejected, and on a response it fails, with the parse error, exactly when the text of
  the response is not empty and does not parse. A missing or empty text yields the empty
  object, and a text that parses yields its value, of whatever shape.
\<close>

theorem script_fails_iff_unparsable:
  assumes "parse ''{}'' = Some (JObj [])"
  shows "fst (generateScript service parse r len w)
      = (case service (length (calls (events w))) (script_request r len) of
           Inl e \<Rightarrow> Inl e
         | Inr resp \<Rightarrow>
             (case response_text resp of
                None \<Rightarrow> Inr (JObj [])
              | Some t \<Rightarrow>
                  if t = '''' then Inr (JObj [])
                  else (case parse t of None \<Rightarrow> Inl SyntaxError | Some v \<Rightarrow> Inr v)))
    \<and> (\<forall>resp. service (length (calls (events w))) (script_request r len) = Inr resp \<longrightarrow>
          ((\<exists>e. fst (generateScript service parse r len w) = Inl e)
             = (\<exists>t. response_text resp = Some t \<and> t \<noteq> '''' \<and> parse t = None)))"
  using assms
  by (auto simp: generateScript_eq parse_text_def or_else_def split: sum.splits option.splits)

theorem script_fails_iff_unparsable_witness:
  "demo_parse ''{}'' = Some (JObj [])
   \<and> fst (generateScript (demo_service {}) demo_parse ''report'' MEDIUM
            \<lparr>state = demo_state, events = [Called (research_request ''tea'')]\<rparr>) = Inr demo_script
   \<and> fst (generateScript (\<lambda>n req. Inr (text_response broken_text)) demo_parse ''report'' MEDIUM
            demo_world) = Inl SyntaxError
   \<and> fst (generateScript (\<lambda>n req. Inr (text_response '''')) demo_parse ''report'' MEDIUM
            demo_world) = Inr (JObj [])
   \<and> fst (generateScript (demo_service {0}) demo_parse ''report'' MEDIUM demo_world)
       = Inl (Rejected ''unavailable'')
   \<and> (\<exists>e. fst (generateScript (\<lambda>n req. Inr (text_response broken_text)) demo_parse ''tea'' SHORT
            demo_world) = Inl e)"
proof -
  have h: "demo_parse ''{}'' = Some (JObj [])"
    by (simp add: demo_parse_def)
  note eq = script_fails_iff_unparsable [where parse = demo_parse, OF h, THEN conjunct1]
  have a: "demo_parse demo_script_text = Some demo_script"
    by (simp add: demo_parse_def demo_script_text_def)
  have b: "demo_parse broken_text = None"
    by (simp add: demo_parse_def demo_script_text_def demo_metadata_text_def
        demo_thumbnail_text_def broken_text_def)
  have c: "demo_script_text \<noteq> ''''" "broken_text \<noteq> ''''"
    by (simp_all add: demo_script_text_def broken_text_def)
  have unparsable: "\<exists>t. response_text (text_response broken_text) = Some t \<and> t \<noteq> ''''
      \<and> demo_parse t = None"
    by (simp add: text_response_def b c)
  have fails: "\<exists>e. fst (generateScript (\<lambda>n req. Inr (text_response broken_text)) demo_parse
      ''tea'' SHORT demo_world) = Inl e"
    using script_fails_iff_unparsable [where parse = demo_parse
        and service = "\<lambda>n req. Inr (text_response broken_text)" and r = "''tea''" and len = SHORT
        and w = demo_world, OF h, THEN conjunct2, rule_format, of "text_response broken_text"]
      unparsable
    by simp
  show ?thesis
    using fails by (simp add: h eq a b c demo_service_def demo_world_def text_response_def)
qed

end
